theory Spec2Isabelle
  imports Complex_Main "HOL-Library.Multiset" "HOL-Library.Sublist" "HOL-Library.Product_Lexorder"
begin

section \<open>The budget allocator of BudgetOptimizedMarketAssistant\<close>

text \<open>
  The embedding follows \<^verbatim>\<open>src/upgraded_stock_market_bot.py.py\<close>, class
  \<^verbatim>\<open>BudgetOptimizedMarketAssistant\<close>: the methods
  \<^verbatim>\<open>get_budget_optimized_stocks\<close> and \<^verbatim>\<open>optimize_portfolio\<close>, and the list
  comprehension \<^verbatim>\<open>affordable_stocks\<close> of \<^verbatim>\<open>process_query\<close>.

  Numbers. Prices, potentials and the budget are Python floats, share counts are Python
  ints (\<^typ>\<open>int\<close>). The code is embedded twice. In the first model a float is an exact
  real (no rounding, no infinities, no NaN); it serves for what does not depend on
  rounding: the order of the lines and their symbols, the scenario with small integers, the
  empty input, the division by a price of 0, and which objects the method reads and
  writes. The second model (the section on floating-point arithmetic) has the doubles of
  IEEE 754 with rounding to nearest, the infinities and NaN; it serves where rounding or
  overflow decides: the single-stock ranking and the records with a negative price.
\<close>

subsection \<open>Data\<close>

text \<open>
  The dictionary returned by \<^verbatim>\<open>analyze_stock\<close>. Of its twelve keys the allocator reads
  \<^verbatim>\<open>symbol\<close>, \<^verbatim>\<open>current_price\<close> and \<^verbatim>\<open>future_potential\<close>; the other nine (rsi,
  sma, ...) are never read here and are left out. The three keys that
  \<^verbatim>\<open>get_budget_optimized_stocks\<close> adds to the dictionary are optional fields: absent
  (\<open>None\<close>) until that method stores them.
\<close>

record stock =
  symbol :: string
  current_price :: real
  future_potential :: real
  possible_shares :: "int option"
  total_cost :: "real option"
  potential_profit :: "real option"

text \<open>
  The dictionary \<^verbatim>\<open>stock_allocation\<close> built by \<^verbatim>\<open>optimize_portfolio\<close>; its key
  \<^verbatim>\<open>symbol\<close> is the field \<open>alloc_symbol\<close> (the name \<open>symbol\<close> is taken by the record
  above).
\<close>

record stock_allocation =
  alloc_symbol :: string
  shares :: int
  cost :: real
  potential_return :: real

text \<open>
  The object \<^verbatim>\<open>self\<close>: the company map (name to ticker symbol, in insertion order) and
  the attribute \<^verbatim>\<open>min_investment\<close> set by the constructor.
\<close>

record assistant =
  company_map :: "(string \<times> string) list"
  min_investment :: real

text \<open>
  The exceptions of the model. \<open>TypeError\<close> is only raised by the store model below, when
  an address does not hold an object of the expected kind; \<open>OverflowError\<close> and
  \<open>ValueError\<close> are raised by \<^verbatim>\<open>int()\<close> on an infinite float and on NaN in the
  floating-point model. \<open>Unordered_NaN\<close> is not an exception of Python: the floating-point
  model stops with it when a sort key is NaN, where the order that \<^verbatim>\<open>sorted\<close> produces is
  not determined by an order on the keys.
\<close>

datatype py_error = ZeroDivisionError | TypeError | OverflowError | ValueError | Unordered_NaN

subsection \<open>Python primitives\<close>

text \<open>Float division \<^verbatim>\<open>a / b\<close> raises on a zero divisor.\<close>

definition py_div :: "real \<Rightarrow> real \<Rightarrow> py_error + real" where
  "py_div a b = (if b = 0 then Inl ZeroDivisionError else Inr (a / b))"

text \<open>\<^verbatim>\<open>int(x)\<close> on a float truncates towards zero.\<close>

definition py_int :: "real \<Rightarrow> int" where
  "py_int x = (if 0 \<le> x then \<lfloor>x\<rfloor> else \<lceil>x\<rceil>)"

text \<open>
  \<^verbatim>\<open>sorted(xs, key=key, reverse=True)\<close>. The key function is called once on every element,
  in list order, before any comparison (an exception in a key aborts the call); the
  decorated list is reversed, sorted by the stable ascending sort on the keys, and reversed
  again, which is how CPython keeps a reversed sort stable.
\<close>

fun decorate :: "('a \<Rightarrow> py_error + 'k) \<Rightarrow> 'a list \<Rightarrow> py_error + ('k \<times> 'a) list" where
  "decorate key [] = Inr []"
| "decorate key (x # xs) =
     (case key x of
        Inl e \<Rightarrow> Inl e
      | Inr k \<Rightarrow> (case decorate key xs of
                    Inl e \<Rightarrow> Inl e
                  | Inr kxs \<Rightarrow> Inr ((k, x) # kxs)))"

definition sorted_reverse :: "('a \<Rightarrow> py_error + 'k::linorder) \<Rightarrow> 'a list \<Rightarrow> py_error + 'a list" where
  "sorted_reverse key xs =
     (case decorate key xs of
        Inl e \<Rightarrow> Inl e
      | Inr kxs \<Rightarrow> Inr (map snd (rev (sort_key fst (rev kxs)))))"

subsection \<open>optimize_portfolio\<close>

text \<open>The sort key \<^verbatim>\<open>lambda x: x['future_potential'] / x['current_price']\<close>.\<close>

definition efficiency_key :: "stock \<Rightarrow> py_error + real" where
  "efficiency_key x = py_div (future_potential x) (current_price x)"

text \<open>
  The \<^verbatim>\<open>for stock in stocks_by_efficiency\<close> loop, with its two variables
  \<^verbatim>\<open>portfolio\<close> and \<^verbatim>\<open>remaining_budget\<close> as the loop state; the final state is
  returned.
\<close>

fun greedy_loop ::
  "stock list \<Rightarrow> stock_allocation list \<Rightarrow> real \<Rightarrow> py_error + (stock_allocation list \<times> real)" where
  "greedy_loop [] portfolio remaining_budget = Inr (portfolio, remaining_budget)"
| "greedy_loop (stock # rest) portfolio remaining_budget =
     (if remaining_budget \<ge> current_price stock then
        (case py_div remaining_budget (current_price stock) of
           Inl e \<Rightarrow> Inl e
         | Inr q \<Rightarrow>
             (let possible_shares = py_int q in
              if possible_shares > 0 then
                (let stock_allocation = \<lparr>
                       alloc_symbol = symbol stock,
                       shares = possible_shares,
                       cost = of_int possible_shares * current_price stock,
                       potential_return =
                         of_int possible_shares * current_price stock * future_potential stock / 100 \<rparr>
                 in greedy_loop rest (portfolio @ [stock_allocation])
                      (remaining_budget - cost stock_allocation))
              else greedy_loop rest portfolio remaining_budget))
      else greedy_loop rest portfolio remaining_budget)"

text \<open>
  The method up to the end of its loop: the final \<^verbatim>\<open>portfolio\<close> together with the final
  \<^verbatim>\<open>remaining_budget\<close>.
\<close>

definition optimize_portfolio_state ::
  "assistant \<Rightarrow> stock list \<Rightarrow> real \<Rightarrow> py_error + (stock_allocation list \<times> real)" where
  "optimize_portfolio_state self stocks budget =
     (case sorted_reverse efficiency_key stocks of
        Inl e \<Rightarrow> Inl e
      | Inr stocks_by_efficiency \<Rightarrow> greedy_loop stocks_by_efficiency [] budget)"

definition optimize_portfolio ::
  "assistant \<Rightarrow> stock list \<Rightarrow> real \<Rightarrow> py_error + stock_allocation list" where
  "optimize_portfolio self stocks budget =
     (case optimize_portfolio_state self stocks budget of
        Inl e \<Rightarrow> Inl e
      | Inr (portfolio, remaining_budget) \<Rightarrow> Inr portfolio)"

subsection \<open>get_budget_optimized_stocks and the affordable single stocks\<close>

text \<open>
  The loop over \<^verbatim>\<open>self.company_map.values()\<close>. \<^verbatim>\<open>analyze_stock\<close> fetches market data
  and is outside the allocator: it is a parameter, giving for each ticker symbol either
  \<open>None\<close> or the analysis dictionary. The three assignments update the dictionary in
  place, so the element appended to \<^verbatim>\<open>all_stocks\<close> carries the three new keys.
\<close>

fun collect_stocks ::
  "(string \<Rightarrow> stock option) \<Rightarrow> real \<Rightarrow> string list \<Rightarrow> stock list \<Rightarrow> py_error + stock list" where
  "collect_stocks analyze_stock budget [] all_stocks = Inr all_stocks"
| "collect_stocks analyze_stock budget (ticker # rest) all_stocks =
     (case analyze_stock ticker of
        None \<Rightarrow> collect_stocks analyze_stock budget rest all_stocks
      | Some analysis \<Rightarrow>
          (case py_div budget (current_price analysis) of
             Inl e \<Rightarrow> Inl e
           | Inr q \<Rightarrow>
               (let max_shares = py_int q in
                if max_shares > 0 then
                  (let a1 = analysis\<lparr>possible_shares := Some max_shares\<rparr>;
                       cost1 = of_int max_shares * current_price a1;
                       a2 = a1\<lparr>total_cost := Some cost1\<rparr>;
                       a3 = a2\<lparr>potential_profit := Some (cost1 * (future_potential a2 / 100))\<rparr>
                   in collect_stocks analyze_stock budget rest (all_stocks @ [a3]))
                else collect_stocks analyze_stock budget rest all_stocks)))"

definition get_budget_optimized_stocks ::
  "assistant \<Rightarrow> (string \<Rightarrow> stock option) \<Rightarrow> real
     \<Rightarrow> py_error + (stock list \<times> stock_allocation list)" where
  "get_budget_optimized_stocks self analyze_stock budget =
     (case collect_stocks analyze_stock budget (map snd (company_map self)) [] of
        Inl e \<Rightarrow> Inl e
      | Inr all_stocks \<Rightarrow>
          (case sorted_reverse (\<lambda>x. Inr (future_potential x)) all_stocks of
             Inl e \<Rightarrow> Inl e
           | Inr single_stock \<Rightarrow>
               (case optimize_portfolio self all_stocks budget of
                  Inl e \<Rightarrow> Inl e
                | Inr multi_stock_combo \<Rightarrow> Inr (single_stock, multi_stock_combo))))"

text \<open>
  The list \<^verbatim>\<open>affordable_stocks\<close> of \<^verbatim>\<open>process_query\<close>: the first component of
  \<^verbatim>\<open>get_budget_optimized_stocks\<close>, filtered by \<^verbatim>\<open>current_price <= budget\<close>.
\<close>

definition affordable_stocks ::
  "assistant \<Rightarrow> (string \<Rightarrow> stock option) \<Rightarrow> real \<Rightarrow> py_error + stock list" where
  "affordable_stocks self analyze_stock budget =
     (case get_budget_optimized_stocks self analyze_stock budget of
        Inl e \<Rightarrow> Inl e
      | Inr (single_stocks, multi_stocks) \<Rightarrow>
          Inr (filter (\<lambda>stock. current_price stock \<le> budget) single_stocks))"

subsection \<open>The reference greedy algorithm of the specification\<close>







subsection \<open>The loop of get_budget_optimized_stocks over the analyses\<close>

text \<open>
  Two auxiliary definitions, used to state what \<open>collect_stocks\<close> computes.
  \<open>with_budget_keys\<close> is the analysis dictionary after the three assignments of the
  loop body (\<^verbatim>\<open>possible_shares\<close>, \<^verbatim>\<open>total_cost\<close>, \<^verbatim>\<open>potential_profit\<close>);
  \<open>collect_scored\<close> is the same loop run over the analyses that are not \<open>None\<close>.
\<close>

definition with_budget_keys :: "real \<Rightarrow> stock \<Rightarrow> stock" where
  "with_budget_keys budget analysis =
     analysis\<lparr> possible_shares := Some (py_int (budget / current_price analysis)),
               total_cost := Some (of_int (py_int (budget / current_price analysis)) * current_price analysis),
               potential_profit :=
                 Some (of_int (py_int (budget / current_price analysis)) * current_price analysis
                       * (future_potential analysis / 100)) \<rparr>"

fun collect_scored :: "real \<Rightarrow> stock list \<Rightarrow> stock list \<Rightarrow> py_error + stock list" where
  "collect_scored budget [] all_stocks = Inr all_stocks"
| "collect_scored budget (analysis # rest) all_stocks =
     (if current_price analysis = 0 then Inl ZeroDivisionError
      else if py_int (budget / current_price analysis) > 0
        then collect_scored budget rest (all_stocks @ [with_budget_keys budget analysis])
        else collect_scored budget rest all_stocks)"

subsection \<open>The scenario of section 8 of the specification\<close>

definition asset_A :: stock where
  "asset_A = \<lparr> symbol = ''A'', current_price = 100, future_potential = 20,
       possible_shares = None, total_cost = None, potential_profit = None \<rparr>"

definition asset_B :: stock where
  "asset_B = \<lparr> symbol = ''B'', current_price = 50, future_potential = 15,
       possible_shares = None, total_cost = None, potential_profit = None \<rparr>"

definition example_self :: assistant where
  "example_self = \<lparr> company_map = [(''a ltd'', ''A''), (''b ltd'', ''B'')], min_investment = 500 \<rparr>"

definition example_analyze :: "string \<Rightarrow> stock option" where
  "example_analyze ticker =
     (if ticker = ''A'' then Some asset_A else if ticker = ''B'' then Some asset_B else None)"



subsection \<open>optimize_portfolio over an explicit store\<close>

text \<open>
  The same method with Python's objects made explicit, to state what it does to its
  arguments. The store is the list of all objects, an address is an index into it, and a
  new object gets the next free address. A list object holds the addresses of its
  elements. \<^verbatim>\<open>portfolio = []\<close>, the list built by \<^verbatim>\<open>sorted\<close> and every dictionary
  literal \<^verbatim>\<open>stock_allocation = {...}\<close> allocate; \<^verbatim>\<open>portfolio.append\<close> updates the
  portfolio list in place; \<^verbatim>\<open>stock[...]\<close> reads. Every function returns the store
  it leaves behind together with its result or exception.
\<close>

datatype obj = Stock_dict stock | Allocation_dict stock_allocation | List_obj "nat list"

type_synonym store = "obj list"



definition get_list :: "store \<Rightarrow> nat \<Rightarrow> py_error + nat list" where
  "get_list h a =
     (if a < length h then (case h ! a of List_obj xs \<Rightarrow> Inr xs | _ \<Rightarrow> Inl TypeError)
      else Inl TypeError)"

definition list_append :: "store \<Rightarrow> nat \<Rightarrow> nat \<Rightarrow> store" where
  "list_append h l x = (case get_list h l of Inr xs \<Rightarrow> h[l := List_obj (xs @ [x])] | Inl e \<Rightarrow> h)"






definition asset_N :: stock where
  "asset_N = \<lparr> symbol = ''N'', current_price = - 10, future_potential = 5,
       possible_shares = None, total_cost = None, potential_profit = None \<rparr>"




definition negative_price_analyze :: "string \<Rightarrow> stock option" where
  "negative_price_analyze ticker =
     (if ticker = ''N'' then Some asset_N else if ticker = ''B'' then Some asset_B else None)"

definition empty_self :: assistant where
  "empty_self = \<lparr> company_map = [], min_investment = 500 \<rparr>"

definition other_self :: assistant where
  "other_self = \<lparr> company_map = [(''alpha'', ''A''), (''q ltd'', ''Q''), (''beta'', ''B'')],
       min_investment = 0 \<rparr>"

section \<open>The allocator in floating-point arithmetic\<close>

text \<open>
  The same three pieces of code with Python's \<^verbatim>\<open>float\<close> as it is: an IEEE 754 binary64
  number, every operation rounded to the nearest double (ties to even), with the two
  infinities and NaN.
\<close>

subsection \<open>Doubles\<close>

text \<open>
  A float is a finite real number (a double, when it is the result of an operation),
  \<open>inf\<close>, \<open>-inf\<close> or \<open>nan\<close>. The sign of zero is not modelled: no operation of the
  allocator depends on it.
\<close>

datatype pyfloat = Finite real | PInf | NInf | NaN

text \<open>Rounding to the nearest integer, ties to the even one.\<close>

definition round_half_even :: "real \<Rightarrow> int" where
  "round_half_even r =
     (let f = \<lfloor>r\<rfloor>; d = r - of_int f in
      if d < 1 / 2 then f else if 1 / 2 < d then f + 1 else if even f then f else f + 1)"

text \<open>
  The exponent of the binade of \<open>x \<ge> 0\<close>: the largest \<open>e\<close> in \<open>-1022 .. 1023\<close> with
  \<open>2 ^ e \<le> x\<close>, and \<open>-1022\<close> for the subnormal numbers and 0. The doubles of that binade
  are the multiples of \<open>2 ^ (e - 52)\<close>.
\<close>

fun binade_from :: "nat \<Rightarrow> real \<Rightarrow> int" where
  "binade_from 0 x = - 1022"
| "binade_from (Suc n) x =
     (if 2 powi (int n - 1021) \<le> x then int n - 1021 else binade_from n x)"

definition binade :: "real \<Rightarrow> int" where
  "binade x = binade_from 2045 x"

definition round_pos :: "real \<Rightarrow> real" where
  "round_pos x =
     of_int (round_half_even (x / 2 powi (binade x - 52))) * 2 powi (binade x - 52)"

definition round_double :: "real \<Rightarrow> real" where
  "round_double x = (if 0 \<le> x then round_pos x else - round_pos (- x))"

text \<open>
  The result of an operation whose exact value is \<open>x\<close>: the nearest double, or an
  infinity when that rounding reaches \<open>2 ^ 1024\<close>.
\<close>

definition fl :: "real \<Rightarrow> pyfloat" where
  "fl x =
     (let r = round_double x in
      if 2 ^ 1024 \<le> r then PInf else if r \<le> - (2 ^ 1024) then NInf else Finite r)"

subsection \<open>Python's operations on floats\<close>

text \<open>\<^verbatim>\<open>a * b\<close> and \<^verbatim>\<open>a - b\<close> never raise.\<close>

fun float_mul :: "pyfloat \<Rightarrow> pyfloat \<Rightarrow> pyfloat" where
  "float_mul (Finite x) (Finite y) = fl (x * y)"
| "float_mul NaN b = NaN"
| "float_mul a NaN = NaN"
| "float_mul (Finite x) PInf = (if x = 0 then NaN else if 0 < x then PInf else NInf)"
| "float_mul (Finite x) NInf = (if x = 0 then NaN else if 0 < x then NInf else PInf)"
| "float_mul PInf (Finite y) = (if y = 0 then NaN else if 0 < y then PInf else NInf)"
| "float_mul NInf (Finite y) = (if y = 0 then NaN else if 0 < y then NInf else PInf)"
| "float_mul PInf PInf = PInf"
| "float_mul PInf NInf = NInf"
| "float_mul NInf PInf = NInf"
| "float_mul NInf NInf = PInf"

fun float_sub :: "pyfloat \<Rightarrow> pyfloat \<Rightarrow> pyfloat" where
  "float_sub (Finite x) (Finite y) = fl (x - y)"
| "float_sub NaN b = NaN"
| "float_sub a NaN = NaN"
| "float_sub (Finite x) PInf = NInf"
| "float_sub (Finite x) NInf = PInf"
| "float_sub PInf (Finite y) = PInf"
| "float_sub NInf (Finite y) = NInf"
| "float_sub PInf PInf = NaN"
| "float_sub PInf NInf = PInf"
| "float_sub NInf PInf = NInf"
| "float_sub NInf NInf = NaN"

text \<open>
  \<^verbatim>\<open>a / b\<close> raises \<^verbatim>\<open>ZeroDivisionError\<close> on a zero divisor, whatever the dividend; a
  quotient too large for a double is an infinity, not an exception.
\<close>

fun float_div :: "pyfloat \<Rightarrow> pyfloat \<Rightarrow> py_error + pyfloat" where
  "float_div a (Finite y) =
     (if y = 0 then Inl ZeroDivisionError
      else (case a of
              Finite x \<Rightarrow> Inr (fl (x / y))
            | PInf \<Rightarrow> Inr (if 0 < y then PInf else NInf)
            | NInf \<Rightarrow> Inr (if 0 < y then NInf else PInf)
            | NaN \<Rightarrow> Inr NaN))"
| "float_div a NaN = Inr NaN"
| "float_div (Finite x) PInf = Inr (Finite 0)"
| "float_div (Finite x) NInf = Inr (Finite 0)"
| "float_div a PInf = Inr NaN"
| "float_div a NInf = Inr NaN"

text \<open>\<^verbatim>\<open>a >= b\<close> and \<^verbatim>\<open>a <= b\<close>; every comparison with NaN is false.\<close>

fun float_ge :: "pyfloat \<Rightarrow> pyfloat \<Rightarrow> bool" where
  "float_ge (Finite x) (Finite y) = (y \<le> x)"
| "float_ge NaN b = False"
| "float_ge a NaN = False"
| "float_ge PInf b = True"
| "float_ge a NInf = True"
| "float_ge (Finite x) PInf = False"
| "float_ge NInf (Finite y) = False"
| "float_ge NInf PInf = False"

definition float_le :: "pyfloat \<Rightarrow> pyfloat \<Rightarrow> bool" where
  "float_le a b = float_ge b a"

text \<open>
  \<^verbatim>\<open>int(x)\<close> truncates a finite float towards zero and raises \<^verbatim>\<open>OverflowError\<close> on an
  infinity and \<^verbatim>\<open>ValueError\<close> on NaN.
\<close>

fun int_of_float :: "pyfloat \<Rightarrow> py_error + int" where
  "int_of_float (Finite x) = Inr (py_int x)"
| "int_of_float PInf = Inl OverflowError"
| "int_of_float NInf = Inl OverflowError"
| "int_of_float NaN = Inl ValueError"

text \<open>
  The conversion of the int operand in \<^verbatim>\<open>possible_shares * stock['current_price']\<close>:
  the nearest double, \<^verbatim>\<open>OverflowError\<close> when there is none.
\<close>

definition float_of_int :: "int \<Rightarrow> py_error + pyfloat" where
  "float_of_int k =
     (case fl (of_int k) of Finite r \<Rightarrow> Inr (Finite r) | _ \<Rightarrow> Inl OverflowError)"

text \<open>
  A float as a sort key: the infinities below and above all finite floats. With a NaN among
  the keys the comparisons of \<^verbatim>\<open>sorted\<close> are not those of an order, and the model stops.
\<close>

fun sort_key_of :: "pyfloat \<Rightarrow> py_error + int \<times> real" where
  "sort_key_of (Finite x) = Inr (0, x)"
| "sort_key_of PInf = Inr (1, 0)"
| "sort_key_of NInf = Inr (- 1, 0)"
| "sort_key_of NaN = Inl Unordered_NaN"

text \<open>The value of a finite float (0 for the others).\<close>

fun float_val :: "pyfloat \<Rightarrow> real" where
  "float_val (Finite x) = x"
| "float_val PInf = 0"
| "float_val NInf = 0"
| "float_val NaN = 0"

subsection \<open>The methods over floats\<close>

text \<open>The two dictionaries, with float values.\<close>

record stock_fl =
  symbol_fl :: string
  current_price_fl :: pyfloat
  future_potential_fl :: pyfloat
  possible_shares_fl :: "int option"
  total_cost_fl :: "pyfloat option"
  potential_profit_fl :: "pyfloat option"

record stock_allocation_fl =
  alloc_symbol_fl :: string
  shares_fl :: int
  cost_fl :: pyfloat
  potential_return_fl :: pyfloat

definition efficiency_key_fl :: "stock_fl \<Rightarrow> py_error + int \<times> real" where
  "efficiency_key_fl x =
     (case float_div (future_potential_fl x) (current_price_fl x) of
        Inl e \<Rightarrow> Inl e
      | Inr k \<Rightarrow> sort_key_of k)"

text \<open>
  The loop of \<^verbatim>\<open>optimize_portfolio\<close>. \<^verbatim>\<open>possible_shares * stock['current_price']\<close> is
  evaluated twice in the source, for \<^verbatim>\<open>cost\<close> and inside \<^verbatim>\<open>potential_return\<close>, with
  the same result; \<^verbatim>\<open>/ 100\<close> divides by the float 100.0.
\<close>

fun greedy_loop_fl ::
  "stock_fl list \<Rightarrow> stock_allocation_fl list \<Rightarrow> pyfloat
     \<Rightarrow> py_error + (stock_allocation_fl list \<times> pyfloat)" where
  "greedy_loop_fl [] portfolio remaining_budget = Inr (portfolio, remaining_budget)"
| "greedy_loop_fl (stock # rest) portfolio remaining_budget =
     (if float_ge remaining_budget (current_price_fl stock) then
        (case float_div remaining_budget (current_price_fl stock) of
           Inl e \<Rightarrow> Inl e
         | Inr q \<Rightarrow>
             (case int_of_float q of
                Inl e \<Rightarrow> Inl e
              | Inr possible_shares' \<Rightarrow>
                  if possible_shares' > 0 then
                    (case float_of_int possible_shares' of
                       Inl e \<Rightarrow> Inl e
                     | Inr n \<Rightarrow>
                         (case float_div
                                 (float_mul (float_mul n (current_price_fl stock))
                                    (future_potential_fl stock))
                                 (Finite 100) of
                            Inl e \<Rightarrow> Inl e
                          | Inr r \<Rightarrow>
                              (let stock_allocation = \<lparr>
                                     alloc_symbol_fl = symbol_fl stock,
                                     shares_fl = possible_shares',
                                     cost_fl = float_mul n (current_price_fl stock),
                                     potential_return_fl = r \<rparr>
                               in greedy_loop_fl rest (portfolio @ [stock_allocation])
                                    (float_sub remaining_budget (cost_fl stock_allocation)))))
                  else greedy_loop_fl rest portfolio remaining_budget))
      else greedy_loop_fl rest portfolio remaining_budget)"

definition optimize_portfolio_state_fl ::
  "assistant \<Rightarrow> stock_fl list \<Rightarrow> pyfloat
     \<Rightarrow> py_error + (stock_allocation_fl list \<times> pyfloat)" where
  "optimize_portfolio_state_fl self stocks budget =
     (case sorted_reverse efficiency_key_fl stocks of
        Inl e \<Rightarrow> Inl e
      | Inr stocks_by_efficiency \<Rightarrow> greedy_loop_fl stocks_by_efficiency [] budget)"

definition optimize_portfolio_fl ::
  "assistant \<Rightarrow> stock_fl list \<Rightarrow> pyfloat \<Rightarrow> py_error + stock_allocation_fl list" where
  "optimize_portfolio_fl self stocks budget =
     (case optimize_portfolio_state_fl self stocks budget of
        Inl e \<Rightarrow> Inl e
      | Inr (portfolio, remaining_budget) \<Rightarrow> Inr portfolio)"

text \<open>
  The three assignments \<^verbatim>\<open>analysis['possible_shares'] = ...\<close>,
  \<^verbatim>\<open>analysis['total_cost'] = ...\<close>, \<^verbatim>\<open>analysis['potential_profit'] = ...\<close> of
  \<^verbatim>\<open>get_budget_optimized_stocks\<close>, then its loop and the method itself.
\<close>

definition with_budget_keys_fl :: "pyfloat \<Rightarrow> stock_fl \<Rightarrow> int \<Rightarrow> py_error + stock_fl" where
  "with_budget_keys_fl budget analysis max_shares =
     (case float_of_int max_shares of
        Inl e \<Rightarrow> Inl e
      | Inr n \<Rightarrow>
          (case float_div (future_potential_fl analysis) (Finite 100) of
             Inl e \<Rightarrow> Inl e
           | Inr pct \<Rightarrow>
               (let a1 = analysis\<lparr>possible_shares_fl := Some max_shares\<rparr>;
                    cost1 = float_mul n (current_price_fl a1);
                    a2 = a1\<lparr>total_cost_fl := Some cost1\<rparr>;
                    a3 = a2\<lparr>potential_profit_fl := Some (float_mul cost1 pct)\<rparr>
                in Inr a3)))"

fun collect_stocks_fl ::
  "(string \<Rightarrow> stock_fl option) \<Rightarrow> pyfloat \<Rightarrow> string list \<Rightarrow> stock_fl list
     \<Rightarrow> py_error + stock_fl list" where
  "collect_stocks_fl analyze_stock budget [] all_stocks = Inr all_stocks"
| "collect_stocks_fl analyze_stock budget (ticker # rest) all_stocks =
     (case analyze_stock ticker of
        None \<Rightarrow> collect_stocks_fl analyze_stock budget rest all_stocks
      | Some analysis \<Rightarrow>
          (case float_div budget (current_price_fl analysis) of
             Inl e \<Rightarrow> Inl e
           | Inr q \<Rightarrow>
               (case int_of_float q of
                  Inl e \<Rightarrow> Inl e
                | Inr max_shares \<Rightarrow>
                    if max_shares > 0 then
                      (case with_budget_keys_fl budget analysis max_shares of
                         Inl e \<Rightarrow> Inl e
                       | Inr a3 \<Rightarrow>
                           collect_stocks_fl analyze_stock budget rest (all_stocks @ [a3]))
                    else collect_stocks_fl analyze_stock budget rest all_stocks)))"

definition future_potential_key_fl :: "stock_fl \<Rightarrow> py_error + int \<times> real" where
  "future_potential_key_fl x = sort_key_of (future_potential_fl x)"

definition get_budget_optimized_stocks_fl ::
  "assistant \<Rightarrow> (string \<Rightarrow> stock_fl option) \<Rightarrow> pyfloat
     \<Rightarrow> py_error + (stock_fl list \<times> stock_allocation_fl list)" where
  "get_budget_optimized_stocks_fl self analyze_stock budget =
     (case collect_stocks_fl analyze_stock budget (map snd (company_map self)) [] of
        Inl e \<Rightarrow> Inl e
      | Inr all_stocks \<Rightarrow>
          (case sorted_reverse future_potential_key_fl all_stocks of
             Inl e \<Rightarrow> Inl e
           | Inr single_stock \<Rightarrow>
               (case optimize_portfolio_fl self all_stocks budget of
                  Inl e \<Rightarrow> Inl e
                | Inr multi_stock_combo \<Rightarrow> Inr (single_stock, multi_stock_combo))))"

definition affordable_stocks_fl ::
  "assistant \<Rightarrow> (string \<Rightarrow> stock_fl option) \<Rightarrow> pyfloat \<Rightarrow> py_error + stock_fl list" where
  "affordable_stocks_fl self analyze_stock budget =
     (case get_budget_optimized_stocks_fl self analyze_stock budget of
        Inl e \<Rightarrow> Inl e
      | Inr (single_stocks, multi_stocks) \<Rightarrow>
          Inr (filter (\<lambda>stock. float_le (current_price_fl stock) budget) single_stocks))"

text \<open>
  The dictionary that one round of the loop of \<^verbatim>\<open>get_budget_optimized_stocks\<close> leaves
  for \<open>analysis\<close>, when the round raises nothing (the dictionary itself otherwise).
\<close>

definition budget_keys_of :: "pyfloat \<Rightarrow> stock_fl \<Rightarrow> stock_fl" where
  "budget_keys_of budget analysis =
     (case float_div budget (current_price_fl analysis) of
        Inl e \<Rightarrow> analysis
      | Inr q \<Rightarrow>
          (case int_of_float q of
             Inl e \<Rightarrow> analysis
           | Inr max_shares \<Rightarrow>
               (case with_budget_keys_fl budget analysis max_shares of
                  Inl e \<Rightarrow> analysis
                | Inr a3 \<Rightarrow> a3)))"

subsection \<open>Scenarios over floats\<close>

text \<open>
  The assets A and B of scenario 1; an asset with the price 0.25, for the budget
  \<open>2 ^ 1023\<close>; a record with a negative price.
\<close>

definition asset_A_fl :: stock_fl where
  "asset_A_fl = \<lparr> symbol_fl = ''A'', current_price_fl = Finite 100, future_potential_fl = Finite 20,
       possible_shares_fl = None, total_cost_fl = None, potential_profit_fl = None \<rparr>"

definition asset_B_fl :: stock_fl where
  "asset_B_fl = \<lparr> symbol_fl = ''B'', current_price_fl = Finite 50, future_potential_fl = Finite 15,
       possible_shares_fl = None, total_cost_fl = None, potential_profit_fl = None \<rparr>"

definition example_analyze_fl :: "string \<Rightarrow> stock_fl option" where
  "example_analyze_fl ticker =
     (if ticker = ''A'' then Some asset_A_fl else if ticker = ''B'' then Some asset_B_fl else None)"

definition asset_Q_fl :: stock_fl where
  "asset_Q_fl = \<lparr> symbol_fl = ''Q'', current_price_fl = Finite (1 / 4), future_potential_fl = Finite 1,
       possible_shares_fl = None, total_cost_fl = None, potential_profit_fl = None \<rparr>"

definition overflow_self :: assistant where
  "overflow_self = \<lparr> company_map = [(''q ltd'', ''Q'')], min_investment = 500 \<rparr>"

definition overflow_analyze :: "string \<Rightarrow> stock_fl option" where
  "overflow_analyze ticker = (if ticker = ''Q'' then Some asset_Q_fl else None)"



section \<open>Properties\<close>

subsection \<open>The sort\<close>

lemma decorate_total:
  "(\<And>x. x \<in> set xs \<Longrightarrow> key x = Inr (f x)) \<Longrightarrow> decorate key xs = Inr (map (\<lambda>x. (f x, x)) xs)"
  by (induction xs) simp_all

lemma insort_key_decorated:
  "insort_key fst (f x, x) (map (\<lambda>x. (f x, x)) ys) = map (\<lambda>x. (f x, x)) (insort_key f x ys)"
  by (induction ys) simp_all

lemma sort_key_decorated:
  "sort_key fst (map (\<lambda>x. (f x, x)) xs) = map (\<lambda>x. (f x, x)) (sort_key f xs)"
  by (induction xs) (simp_all add: insort_key_decorated)

lemma sorted_reverse_total:
  assumes "\<And>x. x \<in> set xs \<Longrightarrow> key x = Inr (f x)"
  shows "sorted_reverse key xs = Inr (rev (sort_key f (rev xs)))"
proof -
  have "map snd (rev (sort_key fst (rev (map (\<lambda>x. (f x, x)) xs))))
        = map snd (rev (sort_key fst (map (\<lambda>x. (f x, x)) (rev xs))))"
    by (simp only: rev_map)
  also have "\<dots> = map snd (rev (map (\<lambda>x. (f x, x)) (sort_key f (rev xs))))"
    by (simp only: sort_key_decorated)
  also have "\<dots> = rev (sort_key f (rev xs))"
    by (simp add: rev_map [symmetric] comp_def)
  finally show ?thesis
    by (simp add: sorted_reverse_def decorate_total [OF assms])
qed

lemma rev_sort_key_rev:
  fixes f :: "'a \<Rightarrow> real"
  shows "rev (sort_key f (rev xs)) = sort_key (\<lambda>x. - f x) xs"
proof (rule properties_for_sort_key [symmetric])
  show "mset (rev (sort_key f (rev xs))) = mset xs" by simp
next
  fix k
  have "filter (\<lambda>x. - f k = - f x) (rev (sort_key f (rev xs)))
        = rev (filter (\<lambda>x. f x = f k) (sort_key f (rev xs)))"
    by (simp add: rev_filter eq_commute)
  also have "\<dots> = rev (filter (\<lambda>x. f x = f k) (rev xs))"
    by (simp only: sort_key_stable)
  also have "\<dots> = filter (\<lambda>x. - f k = - f x) xs"
    by (simp add: rev_filter eq_commute)
  finally show "filter (\<lambda>x. - f k = - f x) (rev (sort_key f (rev xs))) = filter (\<lambda>x. - f k = - f x) xs" .
next
  have "sorted (map f (sort_key f (rev xs)))" by simp
  then have "sorted (rev (map uminus (map f (sort_key f (rev xs)))))"
    by (simp add: sorted_wrt_rev sorted_wrt_map)
  then show "sorted (map (\<lambda>x. - f x) (rev (sort_key f (rev xs))))"
    by (simp add: rev_map comp_def)
qed

subsection \<open>The loop\<close>

lemma py_int_pos_iff: "0 < py_int q \<longleftrightarrow> 1 \<le> \<lfloor>q\<rfloor>"
  by (auto simp: py_int_def)



subsection \<open>Scenario 1\<close>

lemma scenario_state:
  "optimize_portfolio_state self [asset_A, asset_B] 120 =
     Inr ([\<lparr>alloc_symbol = ''B'', shares = 2, cost = 100, potential_return = 15\<rparr>], 20)"
  by (simp add: optimize_portfolio_state_def sorted_reverse_def efficiency_key_def
      py_div_def py_int_def asset_A_def asset_B_def)

text \<open>
  C2, as the code computes it. On assets A (price 100, potential 20) and B (price 50,
  potential 15) with budget 120 the portfolio has exactly one line: B with 2 shares and
  cost 100, A being skipped because the remaining budget 20 is below its price 100; the
  total cost is 100. The potential return of the line is \<open>100 * 15 / 100 = 15\<close>.
\<close>

theorem optimize_portfolio_scenario:
  "optimize_portfolio self [asset_A, asset_B] 120 =
     Inr [\<lparr>alloc_symbol = ''B'', shares = 2, cost = 100, potential_return = 15\<rparr>]
   \<and> optimize_portfolio_state self [asset_A, asset_B] 120 =
     Inr ([\<lparr>alloc_symbol = ''B'', shares = 2, cost = 100, potential_return = 15\<rparr>], 20)
   \<and> \<not> (20 \<ge> current_price asset_A)
   \<and> (case optimize_portfolio self [asset_A, asset_B] 120 of
        Inr portfolio \<Rightarrow> sum_list (map cost portfolio) = 100 | Inl e \<Rightarrow> False)"
  by (simp add: optimize_portfolio_def scenario_state) (simp add: asset_A_def)

text \<open>
  C2 as the specification states it (a potential return of 30 for the line of B) does not
  hold of the code.
\<close>

theorem optimize_portfolio_scenario_return_not_30:
  "optimize_portfolio example_self [asset_A, asset_B] 120 \<noteq>
     Inr [\<lparr>alloc_symbol = ''B'', shares = 2, cost = 100, potential_return = 30\<rparr>]"
  by (simp add: optimize_portfolio_def scenario_state)

subsection \<open>optimize_portfolio against the reference greedy algorithm\<close>






subsection \<open>Invariants of the single pass\<close>







subsection \<open>get_budget_optimized_stocks and the single-stock ranking\<close>

lemma collect_stocks_scored:
  "collect_stocks analyze_stock budget tickers all_stocks
   = collect_scored budget (List.map_filter analyze_stock tickers) all_stocks"
proof (induction tickers arbitrary: all_stocks)
  case Nil
  show ?case by simp
next
  case (Cons t ts)
  show ?case
  proof (cases "analyze_stock t")
    case None
    then show ?thesis by (simp add: Cons.IH List.map_filter_simps)
  next
    case (Some a)
    then show ?thesis
      by (simp add: Cons.IH List.map_filter_simps py_div_def with_budget_keys_def Let_def)
  qed
qed

lemma insort_key_map:
  "insort_key f (g x) (map g xs) = map g (insort_key (\<lambda>x. f (g x)) x xs)"
  by (induction xs) simp_all

lemma sort_key_map:
  "sort_key f (map g xs) = map g (sort_key (\<lambda>x. f (g x)) xs)"
  by (induction xs) (simp_all add: insort_key_map)

subsection \<open>Malformed records, empty input, determinism\<close>


text \<open>
  C7. On the empty asset list \<^verbatim>\<open>optimize_portfolio\<close> returns the empty portfolio, and
  when \<^verbatim>\<open>analyze_stock\<close> yields no asset for the company map the affordable single
  stocks are the empty list; neither raises, whatever the budget.
\<close>

theorem empty_input_safe:
  "optimize_portfolio self [] budget = Inr []
   \<and> (List.map_filter analyze_stock (map snd (company_map self)) = []
        \<longrightarrow> affordable_stocks self analyze_stock budget = Inr []
          \<and> get_budget_optimized_stocks self analyze_stock budget = Inr ([], []))"
proof -
  have o: "optimize_portfolio self [] budget = Inr []"
    by (simp add: optimize_portfolio_def optimize_portfolio_state_def sorted_reverse_def)
  have "get_budget_optimized_stocks self analyze_stock budget = Inr ([], [])"
    if "List.map_filter analyze_stock (map snd (company_map self)) = []"
    using that o
    by (simp add: get_budget_optimized_stocks_def collect_stocks_scored sorted_reverse_def)
  then show ?thesis using o by (simp add: affordable_stocks_def)
qed

theorem empty_input_safe_witness:
  "List.map_filter example_analyze (map snd (company_map empty_self)) = []
   \<and> optimize_portfolio empty_self [] 100 = Inr []
   \<and> affordable_stocks empty_self example_analyze 100 = Inr []"
proof -
  have m: "List.map_filter example_analyze (map snd (company_map empty_self)) = []"
    by (simp add: empty_self_def)
  from empty_input_safe [of empty_self 100 example_analyze] m show ?thesis by simp
qed

subsection \<open>The store model: optimize_portfolio only reads its arguments\<close>




lemma length_list_append [simp]: "length (list_append h pf x) = length h"
  by (simp add: list_append_def split: sum.splits)
















section \<open>Properties of the floating-point model\<close>

subsection \<open>Rounding to an integer\<close>

lemma round_half_even_cases:
  "round_half_even r = \<lfloor>r\<rfloor> \<or> round_half_even r = \<lfloor>r\<rfloor> + 1"
  by (simp add: round_half_even_def Let_def)

lemma round_half_even_of_int [simp]: "round_half_even (of_int n) = n"
  by (simp add: round_half_even_def)

lemma round_half_even_up:
  "round_half_even r = \<lfloor>r\<rfloor> + 1 \<Longrightarrow> 1 / 2 \<le> r - of_int \<lfloor>r\<rfloor>"
  by (simp add: round_half_even_def Let_def split: if_splits)

lemma round_half_even_mono:
  assumes "a \<le> b"
  shows "round_half_even a \<le> round_half_even b"
proof (cases "\<lfloor>a\<rfloor> = \<lfloor>b\<rfloor>")
  case False
  with assms have "\<lfloor>a\<rfloor> < \<lfloor>b\<rfloor>" by (simp add: floor_mono order.strict_iff_order)
  then have "\<lfloor>a\<rfloor> + 1 \<le> \<lfloor>b\<rfloor>" by simp
  moreover have "round_half_even a \<le> \<lfloor>a\<rfloor> + 1"
    using round_half_even_cases [of a] by auto
  moreover have "\<lfloor>b\<rfloor> \<le> round_half_even b"
    using round_half_even_cases [of b] by auto
  ultimately show ?thesis by linarith
next
  case True
  then have d: "a - of_int \<lfloor>a\<rfloor> \<le> b - of_int \<lfloor>b\<rfloor>" using assms by simp
  show ?thesis
    using True d by (auto simp add: round_half_even_def Let_def)
qed

lemma round_half_even_ge: "of_int n \<le> a \<Longrightarrow> n \<le> round_half_even a"
  using round_half_even_mono [of "of_int n" a] by simp

lemma round_half_even_le: "a \<le> of_int n \<Longrightarrow> round_half_even a \<le> n"
  using round_half_even_mono [of a "of_int n"] by simp

subsection \<open>The binade\<close>

lemma pw_mono: "a \<le> b \<Longrightarrow> (2::real) powi a \<le> 2 powi b"
  by (rule power_int_increasing) simp_all

lemma pw_strict: "a < b \<Longrightarrow> (2::real) powi a < 2 powi b"
  by (rule power_int_strict_increasing) simp_all

lemma pw_less_exp: "(2::real) powi a < 2 powi b \<Longrightarrow> a < b"
  using pw_mono [of b a] by (cases "a < b") auto

lemma pw_add: "(2::real) powi (a + b) = 2 powi a * 2 powi b"
  by (rule power_int_add) simp

lemma pw_diff: "(2::real) powi (a - b) = 2 powi a / 2 powi b"
  by (rule power_int_diff) simp

lemma binade_from_range: "- 1022 \<le> binade_from n x \<and> binade_from n x \<le> int n - 1022"
  by (induction n) auto

lemma binade_from_lower:
  "- 1022 < binade_from n x \<Longrightarrow> 2 powi (binade_from n x) \<le> x"
  by (induction n) (auto split: if_splits)

lemma binade_from_upper:
  "x < 2 powi (int n - 1021) \<Longrightarrow> x < 2 powi (binade_from n x + 1)"
proof (induction n)
  case 0
  then show ?case by simp
next
  case (Suc n)
  show ?case
  proof (cases "2 powi (int n - 1021) \<le> x")
    case True
    with Suc.prems show ?thesis by (simp add: algebra_simps)
  next
    case False
    then have "x < 2 powi (int n - 1021)" by simp
    with Suc.IH False show ?thesis by simp
  qed
qed

lemma binade_range: "- 1022 \<le> binade x" "binade x \<le> 1023"
  using binade_from_range [of 2045 x] by (simp_all add: binade_def)

lemma binade_lower: "- 1022 < binade x \<Longrightarrow> 2 powi (binade x) \<le> x"
  unfolding binade_def by (rule binade_from_lower)

lemma binade_upper: "x < 2 ^ 1024 \<Longrightarrow> x < 2 powi (binade x + 1)"
  unfolding binade_def using binade_from_upper [of x 2045] by simp

lemma binade_top: "2 ^ 1023 \<le> x \<Longrightarrow> binade x = 1023"
proof -
  assume x: "2 ^ 1023 \<le> x"
  have n: "(2045::nat) = Suc 2044" by simp
  have c: "(2::real) powi (int 2044 - 1021) \<le> x" using x by simp
  have "binade_from (Suc 2044) x = int 2044 - 1021"
    using c by (simp only: binade_from.simps if_True)
  then show ?thesis by (simp only: binade_def n; simp)
qed

lemma binade_eqI:
  assumes "- 1022 \<le> e" and "e \<le> 1023"
    and "- 1022 < e \<Longrightarrow> 2 powi e \<le> x"
    and "x < 2 powi (e + 1)"
  shows "binade x = e"
proof (rule antisym)
  show "binade x \<le> e"
  proof (rule ccontr)
    assume "\<not> binade x \<le> e"
    then have lt: "e + 1 \<le> binade x" by simp
    with assms(1) have "- 1022 < binade x" by simp
    then have "2 powi (binade x) \<le> x" by (rule binade_lower)
    moreover have "(2::real) powi (e + 1) \<le> 2 powi (binade x)" using lt by (rule pw_mono)
    ultimately show False using assms(4) by simp
  qed
next
  show "e \<le> binade x"
  proof (rule ccontr)
    assume "\<not> e \<le> binade x"
    then have lt: "binade x + 1 \<le> e" by simp
    with binade_range(1) [of x] have "- 1022 < e" by simp
    then have l: "2 powi e \<le> x" by (rule assms(3))
    have "(2::real) powi (e + 1) \<le> 2 powi 1024" using assms(2) by (intro pw_mono) simp
    with assms(4) have "x < 2 ^ 1024" by simp
    then have "x < 2 powi (binade x + 1)" by (rule binade_upper)
    moreover have "(2::real) powi (binade x + 1) \<le> 2 powi e" using lt by (rule pw_mono)
    ultimately show False using l by simp
  qed
qed

lemma binade_mono:
  assumes "x \<le> y"
  shows "binade x \<le> binade y"
proof (rule ccontr)
  assume "\<not> binade x \<le> binade y"
  then have lt: "binade y + 1 \<le> binade x" by simp
  with binade_range(1) [of y] have "- 1022 < binade x" by simp
  then have l: "2 powi (binade x) \<le> x" by (rule binade_lower)
  from lt binade_range(2) [of x] have "binade y < 1023" by simp
  have "y < 2 ^ 1024"
  proof (rule ccontr)
    assume "\<not> y < 2 ^ 1024"
    then have "(2::real) ^ 1023 \<le> y" by simp
    then have "binade y = 1023" by (rule binade_top)
    with \<open>binade y < 1023\<close> show False by simp
  qed
  then have "y < 2 powi (binade y + 1)" by (rule binade_upper)
  moreover have "(2::real) powi (binade y + 1) \<le> 2 powi (binade x)" using lt by (rule pw_mono)
  ultimately show False using l assms by simp
qed

subsection \<open>Rounding a non-negative real\<close>

lemma quantum_pos [simp]: "0 < (2::real) powi k"
  by simp

lemma round_pos_nonneg:
  assumes "0 \<le> x"
  shows "0 \<le> round_pos x"
proof -
  have "0 \<le> x / 2 powi (binade x - 52)" using assms by simp
  then have "of_int 0 \<le> x / 2 powi (binade x - 52)" by simp
  then have "0 \<le> round_half_even (x / 2 powi (binade x - 52))" by (rule round_half_even_ge)
  then show ?thesis by (simp add: round_pos_def)
qed

lemma round_pos_lower:
  assumes "- 1022 < binade x"
  shows "2 powi (binade x) \<le> round_pos x"
proof -
  let ?q = "(2::real) powi (binade x - 52)"
  define m :: int where "m = 2 ^ 52"
  have m: "(of_int m :: real) = 2 powi 52" by (simp add: m_def)
  have "2 powi (binade x) \<le> x" using assms by (rule binade_lower)
  then have "2 powi (binade x) / ?q \<le> x / ?q" by (simp only: divide_right_mono zero_le_power_int zero_le_numeral)
  moreover have "2 powi (binade x) / ?q = (2::real) powi 52"
    using pw_diff [of "binade x" "binade x - 52"] by simp
  ultimately have "of_int m \<le> x / ?q" by (simp only: m)
  then have "m \<le> round_half_even (x / ?q)" by (rule round_half_even_ge)
  then have "(of_int m :: real) \<le> of_int (round_half_even (x / ?q))" by (simp only: of_int_le_iff)
  then have "of_int m * ?q \<le> of_int (round_half_even (x / ?q)) * ?q"
    by (rule mult_right_mono) simp
  moreover have "of_int m * ?q = (2::real) powi (binade x)"
    unfolding m using pw_add [of 52 "binade x - 52"] by simp
  ultimately show ?thesis by (simp only: round_pos_def)
qed

lemma round_pos_upper:
  assumes "x < 2 powi (binade x + 1)"
  shows "round_pos x \<le> 2 powi (binade x + 1)"
proof -
  let ?q = "(2::real) powi (binade x - 52)"
  define m :: int where "m = 2 ^ 53"
  have m: "(of_int m :: real) = 2 powi 53" by (simp add: m_def)
  have "x \<le> 2 powi (binade x + 1)" using assms by simp
  then have "x / ?q \<le> 2 powi (binade x + 1) / ?q"
    by (simp only: divide_right_mono zero_le_power_int zero_le_numeral)
  moreover have "2 powi (binade x + 1) / ?q = (2::real) powi 53"
    using pw_diff [of "binade x + 1" "binade x - 52"] by simp
  ultimately have "x / ?q \<le> of_int m" by (simp only: m)
  then have "round_half_even (x / ?q) \<le> m" by (rule round_half_even_le)
  then have "(of_int (round_half_even (x / ?q)) :: real) \<le> of_int m" by (simp only: of_int_le_iff)
  then have "of_int (round_half_even (x / ?q)) * ?q \<le> of_int m * ?q"
    by (rule mult_right_mono) simp
  moreover have "of_int m * ?q = (2::real) powi (binade x + 1)"
  proof -
    have "(2::real) powi (53 + (binade x - 52)) = 2 powi 53 * ?q" by (rule pw_add)
    moreover have "53 + (binade x - 52) = binade x + 1" by simp
    ultimately show ?thesis by (simp only: m)
  qed
  ultimately show ?thesis by (simp only: round_pos_def)
qed

lemma round_pos_mono:
  assumes "x \<le> y"
  shows "round_pos x \<le> round_pos y"
proof (cases "binade x = binade y")
  case True
  let ?q = "(2::real) powi (binade y - 52)"
  have "x / ?q \<le> y / ?q" using assms by (simp add: divide_right_mono)
  then have "round_half_even (x / ?q) \<le> round_half_even (y / ?q)" by (rule round_half_even_mono)
  then have "of_int (round_half_even (x / ?q)) * ?q \<le> of_int (round_half_even (y / ?q)) * ?q"
    by (simp add: mult_right_mono)
  then show ?thesis by (simp add: round_pos_def True)
next
  case False
  with binade_mono [OF assms] have lt: "binade x + 1 \<le> binade y" by simp
  with binade_range(1) [of x] have "- 1022 < binade y" by simp
  then have l: "2 powi (binade y) \<le> round_pos y" by (rule round_pos_lower)
  from lt binade_range(2) [of y] have "binade x < 1023" by simp
  have "x < 2 ^ 1024"
  proof (rule ccontr)
    assume "\<not> x < 2 ^ 1024"
    then have "(2::real) ^ 1023 \<le> x" by simp
    then have "binade x = 1023" by (rule binade_top)
    with \<open>binade x < 1023\<close> show False by simp
  qed
  then have "x < 2 powi (binade x + 1)" by (rule binade_upper)
  then have "round_pos x \<le> 2 powi (binade x + 1)" by (rule round_pos_upper)
  moreover have "(2::real) powi (binade x + 1) \<le> 2 powi (binade y)" using lt by (rule pw_mono)
  ultimately show ?thesis using l by simp
qed

lemma round_double_mono:
  assumes "x \<le> y"
  shows "round_double x \<le> round_double y"
proof -
  consider "0 \<le> x" | "x < 0" "0 \<le> y" | "y < 0" using assms by linarith
  then show ?thesis
  proof cases
    case 1
    with assms have "0 \<le> y" by simp
    with 1 round_pos_mono [OF assms] show ?thesis by (simp add: round_double_def)
  next
    case 2
    have "0 \<le> round_pos (- x)" using 2(1) by (intro round_pos_nonneg) simp
    moreover have "0 \<le> round_pos y" using 2(2) by (rule round_pos_nonneg)
    ultimately show ?thesis using 2 by (simp add: round_double_def)
  next
    case 3
    with assms have "x < 0" by simp
    have "round_pos (- y) \<le> round_pos (- x)" using assms by (intro round_pos_mono) simp
    with 3 \<open>x < 0\<close> show ?thesis by (simp add: round_double_def)
  qed
qed

subsection \<open>Rounding to a double\<close>

lemma fl_simps:
  "fl x = PInf \<longleftrightarrow> 2 ^ 1024 \<le> round_double x"
  "fl x = NInf \<longleftrightarrow> \<not> 2 ^ 1024 \<le> round_double x \<and> round_double x \<le> - (2 ^ 1024)"
  "fl x = Finite v \<longleftrightarrow> v = round_double x \<and> \<not> 2 ^ 1024 \<le> v \<and> \<not> v \<le> - (2 ^ 1024)"
  "fl x \<noteq> NaN"
  by (auto simp only: fl_def Let_def pyfloat.distinct pyfloat.inject split: if_splits)

lemma fl_not_PInf_mono:
  assumes "x \<le> y" and "fl y \<noteq> PInf"
  shows "fl x \<noteq> PInf"
proof -
  have "round_double x \<le> round_double y" using assms(1) by (rule round_double_mono)
  moreover have "\<not> 2 ^ 1024 \<le> round_double y" using assms(2) unfolding fl_simps .
  ultimately have "\<not> 2 ^ 1024 \<le> round_double x" by linarith
  then show ?thesis unfolding fl_simps .
qed

lemma fl_not_NInf_mono:
  assumes "x \<le> y" and "fl x \<noteq> NInf"
  shows "fl y \<noteq> NInf"
proof -
  have "round_double x \<le> round_double y" using assms(1) by (rule round_double_mono)
  moreover have "2 ^ 1024 \<le> round_double x \<or> \<not> round_double x \<le> - (2 ^ 1024)"
    using assms(2) unfolding fl_simps de_Morgan_conj not_not .
  moreover have "(0::real) \<le> 2 ^ 1024" by simp
  ultimately have "2 ^ 1024 \<le> round_double y \<or> \<not> round_double y \<le> - (2 ^ 1024)" by linarith
  then show ?thesis unfolding fl_simps de_Morgan_conj not_not .
qed

lemma fl_Finite_mono:
  assumes "x \<le> y" and "fl x = Finite u" and "fl y = Finite v"
  shows "u \<le> v"
proof -
  have "round_double x \<le> round_double y" using assms(1) by (rule round_double_mono)
  moreover have "u = round_double x" using assms(2) unfolding fl_simps by (rule conjunct1)
  moreover have "v = round_double y" using assms(3) unfolding fl_simps by (rule conjunct1)
  ultimately show ?thesis by simp
qed

lemma fl_total: "fl x = PInf \<or> fl x = NInf \<or> (\<exists>v. fl x = Finite v)"
  by (cases "fl x") (simp_all add: fl_simps(4))

lemma round_pos_rep:
  assumes m: "0 \<le> m" "m < 2 ^ 53" and k: "- 1074 \<le> k"
  shows "round_pos (of_int m * 2 powi k) = of_int m * 2 powi k"
proof -
  let ?x = "of_int m * (2::real) powi k"
  let ?e = "binade ?x"
  have le: "?e - 52 \<le> k"
  proof (cases "- 1022 < ?e")
    case False
    with k show ?thesis by simp
  next
    case True
    then have "2 powi ?e \<le> ?x" by (rule binade_lower)
    moreover have "?x < 2 powi 53 * 2 powi k"
    proof -
      have "(of_int m :: real) < of_int (2 ^ 53)" using m(2) by (simp only: of_int_less_iff)
      then have "(of_int m :: real) < 2 powi 53" by simp
      then show ?thesis by (rule mult_strict_right_mono) simp
    qed
    moreover have "(2::real) powi 53 * 2 powi k = 2 powi (53 + k)" by (rule pw_add [symmetric])
    ultimately have "(2::real) powi ?e < 2 powi (53 + k)" by linarith
    then have "?e < 53 + k" by (rule pw_less_exp)
    then show ?thesis by simp
  qed
  define j where "j = nat (k - (?e - 52))"
  have j: "k = (?e - 52) + int j" using le by (simp add: j_def)
  have "(2::real) powi k = 2 powi (?e - 52) * 2 powi (int j)"
    by (subst j) (rule pw_add)
  then have pk: "(2::real) powi k = 2 powi (?e - 52) * of_int (2 ^ j)" by simp
  have "?x / 2 powi (?e - 52) = of_int (m * 2 ^ j)"
    by (subst pk) simp
  then have "round_half_even (?x / 2 powi (?e - 52)) = m * 2 ^ j"
    by (simp only: round_half_even_of_int)
  then have "round_pos ?x = of_int (m * 2 ^ j) * 2 powi (?e - 52)"
    by (simp only: round_pos_def)
  also have "\<dots> = ?x" by (subst (2) pk) simp
  finally show ?thesis .
qed

lemma fl_rep:
  assumes m: "\<bar>m\<bar> < 2 ^ 53" and k: "- 1074 \<le> k" "k \<le> 971"
  shows "fl (of_int m * 2 powi k) = Finite (of_int m * 2 powi k)"
proof -
  let ?x = "of_int m * (2::real) powi k"
  have bound: "of_int \<bar>m\<bar> * (2::real) powi k < 2 ^ 1024"
  proof -
    have "(of_int \<bar>m\<bar> :: real) < of_int (2 ^ 53)" using m by (simp only: of_int_less_iff)
    then have "(of_int \<bar>m\<bar> :: real) < 2 powi 53" by simp
    then have "of_int \<bar>m\<bar> * (2::real) powi k < 2 powi 53 * 2 powi k"
      by (rule mult_strict_right_mono) simp
    also have "(2::real) powi 53 * 2 powi k = 2 powi (53 + k)" by (rule pw_add [symmetric])
    also have "\<dots> \<le> 2 powi 1024" using k(2) by (intro pw_mono) simp
    finally show ?thesis by simp
  qed
  have r: "round_double ?x = ?x"
  proof (cases "0 \<le> m")
    case True
    then have "0 \<le> ?x" by simp
    with True m round_pos_rep [of m k] k(1) show ?thesis by (simp add: round_double_def)
  next
    case False
    then have neg: "?x < 0" by (simp add: mult_less_0_iff)
    have "round_pos (of_int (- m) * 2 powi k) = of_int (- m) * 2 powi k"
      using False m k(1) by (intro round_pos_rep) simp_all
    with neg show ?thesis by (simp add: round_double_def)
  qed
  have "\<bar>?x\<bar> = of_int \<bar>m\<bar> * (2::real) powi k" by (simp add: abs_mult)
  with bound have "\<bar>?x\<bar> < 2 ^ 1024" by (simp only:)
  then have "\<not> 2 ^ 1024 \<le> ?x" "\<not> ?x \<le> - (2 ^ 1024)" by linarith+
  with r show ?thesis by (simp only: fl_simps simp_thms)
qed

lemma fl_of_int: "\<bar>m\<bar> < 2 ^ 53 \<Longrightarrow> fl (of_int m) = Finite (of_int m)"
  using fl_rep [of m 0] by simp

lemma fl_0 [simp]: "fl 0 = Finite 0"
  using fl_of_int [of 0] by simp

lemma fl_1 [simp]: "fl 1 = Finite 1"
  using fl_of_int [of 1] by simp

lemma fl_overflow:
  assumes "2 ^ 1024 \<le> x"
  shows "fl x = PInf"
proof -
  have x0: "0 \<le> x" using assms by (rule order_trans [rotated]) simp
  have "(2::real) ^ 1023 \<le> 2 ^ 1024" by (rule power_increasing) simp_all
  with assms have "2 ^ 1023 \<le> x" by (rule order_trans [rotated])
  then have e: "binade x = 1023" by (rule binade_top)
  define m :: int where "m = 2 ^ 53"
  have m: "(of_int m :: real) = 2 powi 53" by (simp add: m_def)
  let ?q = "(2::real) powi (1023 - 52)"
  have q: "2 powi 53 * ?q = (2::real) powi 1024"
    using pw_add [of 53 "1023 - 52"] by simp
  have "(2::real) powi 1024 \<le> x" using assms by simp
  then have "2 powi 53 * ?q / ?q \<le> x / ?q"
    by (simp only: q divide_right_mono zero_le_power_int zero_le_numeral)
  then have "of_int m \<le> x / ?q" by (simp add: m)
  then have "m \<le> round_half_even (x / ?q)" by (rule round_half_even_ge)
  then have "(of_int m :: real) \<le> of_int (round_half_even (x / ?q))" by (simp only: of_int_le_iff)
  then have "of_int m * ?q \<le> of_int (round_half_even (x / ?q)) * ?q"
    by (rule mult_right_mono) simp
  then have "(2::real) powi 1024 \<le> round_pos x" by (simp only: m q round_pos_def e)
  with x0 have "2 ^ 1024 \<le> round_double x" by (simp add: round_double_def)
  then show ?thesis by (simp only: fl_simps)
qed

lemma fl_nonneg:
  assumes "0 \<le> x"
  shows "fl x = PInf \<or> (\<exists>v. fl x = Finite v \<and> 0 \<le> v)"
proof -
  have "fl 0 \<noteq> NInf" by simp
  with assms have "fl x \<noteq> NInf" by (rule fl_not_NInf_mono)
  with fl_total [of x] fl_Finite_mono [OF assms fl_0] show ?thesis by auto
qed

lemma fl_nonpos:
  assumes "x \<le> 0"
  shows "fl x = NInf \<or> (\<exists>v. fl x = Finite v \<and> v \<le> 0)"
proof -
  have "fl 0 \<noteq> PInf" by simp
  with assms have "fl x \<noteq> PInf" by (rule fl_not_PInf_mono)
  with fl_total [of x] fl_Finite_mono [OF assms _ fl_0] show ?thesis by auto
qed

lemma fl_ge_1:
  assumes "1 \<le> x"
  shows "fl x = PInf \<or> (\<exists>v. fl x = Finite v \<and> 1 \<le> v)"
proof -
  have "fl 1 \<noteq> NInf" by simp
  with assms have "fl x \<noteq> NInf" by (rule fl_not_NInf_mono)
  with fl_total [of x] fl_Finite_mono [OF assms fl_1] show ?thesis by auto
qed

lemma round_pos_form:
  assumes x: "0 \<le> x" "x < 2 ^ 1024" and r: "round_pos x < 2 ^ 1024"
  shows "\<exists>m k. 0 \<le> m \<and> m < 2 ^ 53 \<and> - 1074 \<le> k \<and> k \<le> 971
           \<and> round_pos x = of_int m * 2 powi k"
proof -
  define e where "e = binade x"
  define m where "m = round_half_even (x / 2 powi (e - 52))"
  define M :: int where "M = 2 ^ 53"
  have rp: "round_pos x = of_int m * 2 powi (e - 52)"
    by (simp only: round_pos_def m_def e_def)
  have er: "- 1022 \<le> e" "e \<le> 1023" using binade_range [of x] by (simp_all only: e_def)
  have M53: "(of_int M :: real) = 2 powi 53" by (simp add: M_def)
  have "x < 2 powi (e + 1)" using binade_upper [OF x(2)] by (simp only: e_def)
  then have "x / 2 powi (e - 52) < 2 powi (e + 1) / 2 powi (e - 52)"
    by (rule divide_strict_right_mono) simp
  also have "\<dots> = 2 powi ((e + 1) - (e - 52))" by (simp only: pw_diff)
  also have "(e + 1) - (e - 52) = 53" by simp
  finally have "x / 2 powi (e - 52) \<le> of_int M" by (simp only: M53)
  then have mle: "m \<le> M" unfolding m_def by (rule round_half_even_le)
  have "of_int 0 \<le> x / 2 powi (e - 52)" using x(1) by simp
  then have m0: "0 \<le> m" unfolding m_def by (rule round_half_even_ge)
  show ?thesis
  proof (cases "m < M")
    case True
    then have m1: "m < 2 ^ 53" by (simp only: M_def)
    have k1: "- 1074 \<le> e - 52" "e - 52 \<le> 971" using er by linarith+
    from m0 m1 k1 rp show ?thesis by blast
  next
    case False
    with mle have mM: "m = M" by simp
    have "round_pos x = 2 powi 53 * 2 powi (e - 52)" by (simp only: rp mM M53)
    also have "\<dots> = 2 powi (53 + (e - 52))" by (simp only: pw_add)
    also have "53 + (e - 52) = e + 1" by linarith
    finally have rp2: "round_pos x = 2 powi (e + 1)" .
    have "(2::real) ^ 1024 = 2 powi 1024" by simp
    with r rp2 have "(2::real) powi (e + 1) < 2 powi 1024" by (simp only:)
    then have "e + 1 < 1024" by (rule pw_less_exp)
    then have e2: "e - 51 \<le> 971" by simp
    have "e + 1 = 52 + (e - 51)" by linarith
    with rp2 have "round_pos x = 2 powi (52 + (e - 51))" by (simp only:)
    also have "\<dots> = 2 powi 52 * 2 powi (e - 51)" by (simp only: pw_add)
    also have "(2::real) powi 52 = of_int (2 ^ 52)" by simp
    finally have "round_pos x = of_int (2 ^ 52) * 2 powi (e - 51)" .
    moreover have "(0::int) \<le> 2 ^ 52" "(2::int) ^ 52 < 2 ^ 53" by simp_all
    moreover have "- 1074 \<le> e - 51" using er by linarith
    ultimately show ?thesis using e2 by blast
  qed
qed


lemma fl_form:
  assumes "fl x = Finite r"
  shows "\<exists>m k. \<bar>m\<bar> < 2 ^ 53 \<and> - 1074 \<le> k \<and> k \<le> 971 \<and> r = of_int m * 2 powi k"
proof -
  from assms have r: "r = round_double x" and b: "\<not> 2 ^ 1024 \<le> r" "\<not> r \<le> - (2 ^ 1024)"
    unfolding fl_simps by simp_all
  show ?thesis
  proof (cases "0 \<le> x")
    case True
    then have rr: "r = round_pos x" by (simp add: r round_double_def)
    have "x < 2 ^ 1024"
    proof (rule ccontr)
      assume "\<not> x < 2 ^ 1024"
      then have "fl x = PInf" by (intro fl_overflow) simp
      with assms show False by simp
    qed
    from round_pos_form [OF True this] b(1) rr
    obtain m k where "0 \<le> m" "m < 2 ^ 53" "- 1074 \<le> k" "k \<le> 971" "r = of_int m * 2 powi k"
      by auto
    then show ?thesis by (intro exI [of _ m] exI [of _ k]) simp
  next
    case False
    then have rr: "r = - round_pos (- x)" by (simp add: r round_double_def)
    have x0: "0 \<le> - x" using False by simp
    have "- x < 2 ^ 1024"
    proof (rule ccontr)
      assume "\<not> - x < 2 ^ 1024"
      then have "fl (- x) = PInf" by (intro fl_overflow) simp
      then have "2 ^ 1024 \<le> round_double (- x)" unfolding fl_simps .
      with x0 have "2 ^ 1024 \<le> round_pos (- x)" by (simp add: round_double_def)
      with rr b(2) show False by simp
    qed
    moreover have "round_pos (- x) < 2 ^ 1024" using rr b(2) by simp
    ultimately obtain m k where
      "0 \<le> m" "m < 2 ^ 53" "- 1074 \<le> k" "k \<le> 971" "round_pos (- x) = of_int m * 2 powi k"
      using round_pos_form [OF x0] by blast
    with rr show ?thesis by (intro exI [of _ "- m"] exI [of _ k]) simp
  qed
qed

lemma fl_idem:
  assumes "fl x = Finite r"
  shows "fl r = Finite r"
proof -
  from fl_form [OF assms] obtain m k where
    "\<bar>m\<bar> < 2 ^ 53" "- 1074 \<le> k" "k \<le> 971" and r: "r = of_int m * 2 powi k" by blast
  then show ?thesis unfolding r by (intro fl_rep)
qed

subsection \<open>The loop of optimize_portfolio never raises on well-formed input\<close>

lemma quotient_finite:
  assumes "0 < p" "0 \<le> r" "r \<le> B" "fl (B / p) = Finite Q"
  shows "\<exists>q. fl (r / p) = Finite q \<and> 0 \<le> q \<and> fl q = Finite q"
proof -
  have le: "r / p \<le> B / p" using assms(1,3) by (simp add: divide_right_mono)
  have "fl (B / p) \<noteq> PInf" using assms(4) by simp
  with le have "fl (r / p) \<noteq> PInf" by (rule fl_not_PInf_mono)
  moreover have "0 \<le> r / p" using assms(1,2) by simp
  ultimately obtain q where q: "fl (r / p) = Finite q" "0 \<le> q"
    using fl_nonneg [of "r / p"] by blast
  from fl_idem [OF q(1)] q show ?thesis by blast
qed

lemma py_int_le: "0 \<le> q \<Longrightarrow> of_int (py_int q) \<le> q"
  by (simp add: py_int_def)

lemma float_of_int_finite:
  assumes "0 \<le> k" "of_int k \<le> q" "fl q = Finite q"
  shows "\<exists>n. float_of_int k = Inr (Finite n) \<and> 0 \<le> n"
proof -
  have "fl q \<noteq> PInf" using assms(3) by simp
  with assms(2) have "fl (of_int k) \<noteq> PInf" by (rule fl_not_PInf_mono)
  moreover have "(0::real) \<le> of_int k" using assms(1) by simp
  ultimately obtain n where "fl (of_int k) = Finite n" "0 \<le> n"
    using fl_nonneg [of "of_int k"] by blast
  then show ?thesis by (simp add: float_of_int_def)
qed

lemma float_div_100: "\<exists>r. float_div a (Finite 100) = Inr r"
  by (cases a) simp_all

lemma greedy_loop_fl_total:
  assumes "\<And>s. s \<in> set stocks \<Longrightarrow>
             \<exists>p Q. current_price_fl s = Finite p \<and> 0 < p \<and> fl (B / p) = Finite Q"
    and "fl B = Finite B"
    and "remaining = NInf \<or> (\<exists>r. remaining = Finite r \<and> r \<le> B)"
  shows "\<exists>res. greedy_loop_fl stocks portfolio remaining = Inr res"
  using assms(1,3)
proof (induction stocks arbitrary: portfolio remaining)
  case Nil
  show ?case by simp
next
  case (Cons s ss)
  from Cons.prems(1) [of s] obtain p Q where
    p: "current_price_fl s = Finite p" "0 < p" "fl (B / p) = Finite Q" by auto
  have pnz: "p \<noteq> 0" using p(2) by simp
  have IH: "\<And>pf rm. rm = NInf \<or> (\<exists>r. rm = Finite r \<and> r \<le> B)
              \<Longrightarrow> \<exists>res. greedy_loop_fl ss pf rm = Inr res"
    using Cons.IH Cons.prems(1) by simp
  from Cons.prems(2) show ?case
  proof
    assume "remaining = NInf"
    then show ?thesis using IH [of NInf portfolio] by (simp add: p(1))
  next
    assume "\<exists>r. remaining = Finite r \<and> r \<le> B"
    then obtain r where r: "remaining = Finite r" "r \<le> B" by blast
    have keep: "\<exists>res. greedy_loop_fl ss portfolio remaining = Inr res"
      using IH [of remaining portfolio] r by simp
    show ?thesis
    proof (cases "p \<le> r")
      case False
      then show ?thesis using keep by (simp add: p(1) r)
    next
      case True
      with p(2) have r0: "0 \<le> r" by simp
      from quotient_finite [OF p(2) r0 r(2) p(3)] obtain q where
        q: "fl (r / p) = Finite q" "0 \<le> q" "fl q = Finite q" by blast
      have qd: "float_div (Finite r) (Finite p) = Inr (Finite q)" using pnz q(1) by simp
      show ?thesis
      proof (cases "0 < py_int q")
        case False
        then show ?thesis using keep True by (simp add: p(1) r qd del: float_div.simps)
      next
        case k: True
        from float_of_int_finite [OF _ py_int_le [OF q(2)] q(3)] k obtain n where
          n: "float_of_int (py_int q) = Inr (Finite n)" "0 \<le> n" by auto
        obtain ret where ret:
          "float_div (float_mul (fl (n * p)) (future_potential_fl s)) (Finite 100) = Inr ret"
          using float_div_100 by blast
        have "0 \<le> n * p" using n(2) p(2) by simp
        from fl_nonneg [OF this] have
          "float_sub (Finite r) (fl (n * p)) = NInf
           \<or> (\<exists>v. float_sub (Finite r) (fl (n * p)) = Finite v \<and> v \<le> B)"
        proof
          assume "fl (n * p) = PInf"
          then show ?thesis by simp
        next
          assume "\<exists>c. fl (n * p) = Finite c \<and> 0 \<le> c"
          then obtain c where c: "fl (n * p) = Finite c" "0 \<le> c" by blast
          have le: "r - c \<le> B" using r(2) c(2) by simp
          have "fl B \<noteq> PInf" using assms(2) by simp
          with le have "fl (r - c) \<noteq> PInf" by (rule fl_not_PInf_mono)
          with fl_total [of "r - c"] fl_Finite_mono [OF le _ assms(2)]
          show ?thesis by (auto simp: c)
        qed
        from IH [OF this] show ?thesis
          using True k by (simp add: p(1) r qd n ret Let_def del: float_div.simps)
      qed
    qed
  qed
qed

lemma sorted_reverse_set:
  assumes "\<And>x. x \<in> set xs \<Longrightarrow> \<exists>k. key x = Inr k"
  shows "\<exists>ys. sorted_reverse key xs = Inr ys \<and> set ys = set xs"
proof -
  have "\<And>x. x \<in> set xs \<Longrightarrow> key x = Inr (projr (key x))"
    using assms by fastforce
  then have "sorted_reverse key xs = Inr (rev (sort_key (\<lambda>x. projr (key x)) (rev xs)))"
    by (rule sorted_reverse_total)
  then show ?thesis by simp
qed

lemma sort_key_of_fl: "\<exists>k. sort_key_of (fl x) = Inr k"
  using fl_total [of x] by auto

lemma efficiency_key_fl_total:
  assumes "current_price_fl s = Finite p" "p \<noteq> 0" "future_potential_fl s = Finite f"
  shows "\<exists>k. efficiency_key_fl s = Inr k"
  using assms sort_key_of_fl [of "f / p"] by (simp add: efficiency_key_fl_def)

lemma optimize_portfolio_fl_total:
  assumes "\<And>s. s \<in> set stocks \<Longrightarrow>
             \<exists>p f Q. current_price_fl s = Finite p \<and> 0 < p \<and> future_potential_fl s = Finite f
                   \<and> fl (B / p) = Finite Q"
    and "fl B = Finite B"
  shows "\<exists>portfolio. optimize_portfolio_fl self stocks (Finite B) = Inr portfolio"
proof -
  have "\<And>s. s \<in> set stocks \<Longrightarrow> \<exists>k. efficiency_key_fl s = Inr k"
  proof -
    fix s assume "s \<in> set stocks"
    from assms(1) [OF this] obtain p f where
      "current_price_fl s = Finite p" "0 < p" "future_potential_fl s = Finite f" by blast
    then show "\<exists>k. efficiency_key_fl s = Inr k"
      using efficiency_key_fl_total [of s p f] by simp
  qed
  from sorted_reverse_set [of stocks efficiency_key_fl, OF this] obtain ys where
    ys: "sorted_reverse efficiency_key_fl stocks = Inr ys" "set ys = set stocks" by blast
  have "\<And>s. s \<in> set ys \<Longrightarrow>
          \<exists>p Q. current_price_fl s = Finite p \<and> 0 < p \<and> fl (B / p) = Finite Q"
    using assms(1) ys(2) by blast
  from greedy_loop_fl_total [where stocks = ys and B = B and remaining = "Finite B" and portfolio = "[]",
      OF this assms(2)]
  obtain res where "greedy_loop_fl ys [] (Finite B) = Inr res" by auto
  then show ?thesis
    by (cases res) (simp add: optimize_portfolio_fl_def optimize_portfolio_state_fl_def ys(1))
qed

lemma with_budget_keys_fl_fields:
  assumes "with_budget_keys_fl budget a k = Inr r"
  shows "symbol_fl r = symbol_fl a" "current_price_fl r = current_price_fl a"
    "future_potential_fl r = future_potential_fl a"
  using assms by (auto simp: with_budget_keys_fl_def Let_def split: sum.splits)

lemma budget_keys_of_fields [simp]:
  "symbol_fl (budget_keys_of budget a) = symbol_fl a"
  "current_price_fl (budget_keys_of budget a) = current_price_fl a"
  "future_potential_fl (budget_keys_of budget a) = future_potential_fl a"
  by (auto simp: budget_keys_of_def with_budget_keys_fl_fields split: sum.splits)

text \<open>One round of the loop of get_budget_optimized_stocks.\<close>

lemma budget_entry:
  assumes "current_price_fl a = Finite p" "p \<noteq> 0" "future_potential_fl a = Finite f"
    and "fl (B / p) = Finite Q"
  shows "float_div (Finite B) (current_price_fl a) = Inr (Finite Q)"
    and "0 < py_int Q \<Longrightarrow>
         with_budget_keys_fl (Finite B) a (py_int Q) = Inr (budget_keys_of (Finite B) a)"
proof -
  show d: "float_div (Finite B) (current_price_fl a) = Inr (Finite Q)"
    using assms by simp
  assume k: "0 < py_int Q"
  then have Q0: "0 \<le> Q" by (simp add: py_int_def split: if_splits; linarith)
  have "fl Q = Finite Q" using assms(4) by (rule fl_idem)
  from float_of_int_finite [OF _ py_int_le [OF Q0] this] k obtain n where
    "float_of_int (py_int Q) = Inr (Finite n)" by auto
  moreover obtain pct where "float_div (Finite f) (Finite 100) = Inr pct"
    using float_div_100 by blast
  ultimately obtain r where r: "with_budget_keys_fl (Finite B) a (py_int Q) = Inr r"
    by (simp add: with_budget_keys_fl_def assms(3) Let_def del: float_div.simps)
  then show "with_budget_keys_fl (Finite B) a (py_int Q) = Inr (budget_keys_of (Finite B) a)"
    by (simp add: budget_keys_of_def d del: float_div.simps)
qed

lemma collect_stocks_fl_eq:
  assumes "\<And>a. a \<in> set (List.map_filter analyze_stock tickers) \<Longrightarrow>
             \<exists>p f Q. current_price_fl a = Finite p \<and> p \<noteq> 0 \<and> future_potential_fl a = Finite f
                   \<and> fl (B / p) = Finite Q"
  shows "collect_stocks_fl analyze_stock (Finite B) tickers all_stocks
     = Inr (all_stocks @ map (budget_keys_of (Finite B))
              (filter (\<lambda>a. 0 < py_int (float_val (fl (B / float_val (current_price_fl a)))))
                 (List.map_filter analyze_stock tickers)))"
  using assms
proof (induction tickers arbitrary: all_stocks)
  case Nil
  show ?case by (simp add: List.map_filter_simps)
next
  case (Cons t ts)
  show ?case
  proof (cases "analyze_stock t")
    case None
    then show ?thesis using Cons.IH Cons.prems by (simp add: List.map_filter_simps)
  next
    case (Some a)
    then have "a \<in> set (List.map_filter analyze_stock (t # ts))"
      by (simp add: List.map_filter_simps)
    from Cons.prems [OF this] obtain p f Q where
      a: "current_price_fl a = Finite p" "p \<noteq> 0" "future_potential_fl a = Finite f"
        "fl (B / p) = Finite Q" by blast
    have IH: "\<And>all_stocks. collect_stocks_fl analyze_stock (Finite B) ts all_stocks
       = Inr (all_stocks @ map (budget_keys_of (Finite B))
              (filter (\<lambda>a. 0 < py_int (float_val (fl (B / float_val (current_price_fl a)))))
                 (List.map_filter analyze_stock ts)))"
      using Cons.IH Cons.prems Some by (simp add: List.map_filter_simps)
    note e = budget_entry [OF a]
    have sel: "py_int (float_val (fl (B / float_val (current_price_fl a)))) = py_int Q"
      by (simp add: a)
    show ?thesis
    proof (cases "0 < py_int Q")
      case True
      then show ?thesis
        using e(2) [OF True]
        by (simp add: Some e(1) IH List.map_filter_simps sel del: float_div.simps)
    next
      case False
      then show ?thesis
        by (simp add: Some e(1) IH List.map_filter_simps sel del: float_div.simps)
    qed
  qed
qed

lemma insort_key_cong_order:
  assumes "\<And>a b. f a \<le> f b \<longleftrightarrow> g a \<le> g b"
  shows "insort_key f x ys = insort_key g x ys"
  by (induction ys) (simp_all add: assms)

lemma sort_key_cong_order:
  assumes "\<And>a b. f a \<le> f b \<longleftrightarrow> g a \<le> g b"
  shows "sort_key f xs = sort_key g xs"
  by (induction xs) (simp_all add: insort_key_cong_order [of f g, OF assms])

lemma sorted_reverse_potential_fl:
  assumes "\<And>x. x \<in> set xs \<Longrightarrow> \<exists>f. future_potential_fl x = Finite f"
  shows "sorted_reverse future_potential_key_fl xs
         = Inr (sort_key (\<lambda>a. - float_val (future_potential_fl a)) xs)"
proof -
  have "\<And>x. x \<in> set xs \<Longrightarrow>
          future_potential_key_fl x = Inr (0::int, float_val (future_potential_fl x))"
    using assms by (fastforce simp: future_potential_key_fl_def)
  then have "sorted_reverse future_potential_key_fl xs
      = Inr (rev (sort_key (\<lambda>x. (0::int, float_val (future_potential_fl x))) (rev xs)))"
    by (rule sorted_reverse_total)
  also have "sort_key (\<lambda>x. (0::int, float_val (future_potential_fl x))) (rev xs)
      = sort_key (\<lambda>x. float_val (future_potential_fl x)) (rev xs)"
    by (rule sort_key_cong_order) (simp add: less_eq_prod_def)
  finally show ?thesis by (simp only: rev_sort_key_rev)
qed

subsection \<open>The single-stock ranking\<close>

lemma selected_fl:
  assumes "fl (B / p) = Finite Q" "0 < B" "p \<noteq> 0"
  shows "0 < py_int Q \<Longrightarrow> 0 < p"
    and "0 < p \<Longrightarrow> p \<le> B \<Longrightarrow> 0 < py_int Q"
proof -
  show "0 < p" if k: "0 < py_int Q"
  proof (rule ccontr)
    assume "\<not> 0 < p"
    with assms(3) have "p < 0" by simp
    with assms(2) have "B / p \<le> 0" by (simp add: divide_le_0_iff)
    from fl_nonpos [OF this] assms(1) have "Q \<le> 0" by auto
    then have "py_int Q \<le> 0" by (simp add: py_int_def; linarith)
    with k show False by simp
  qed
  show "0 < py_int Q" if "0 < p" "p \<le> B"
  proof -
    from that have "1 \<le> B / p" by simp
    from fl_ge_1 [OF this] assms(1) have "1 \<le> Q" by auto
    then have "1 \<le> \<lfloor>Q\<rfloor>" by linarith
    then show ?thesis by (simp add: py_int_pos_iff)
  qed
qed

lemma affordable_stocks_fl_eq:
  assumes wf: "\<And>a. a \<in> set (List.map_filter analyze_stock (map snd (company_map self))) \<Longrightarrow>
             \<exists>p f Q. current_price_fl a = Finite p \<and> p \<noteq> 0 \<and> future_potential_fl a = Finite f
                   \<and> fl (B / p) = Finite Q"
    and B: "0 < B" "fl B = Finite B"
  shows "affordable_stocks_fl self analyze_stock (Finite B)
     = Inr (map (budget_keys_of (Finite B))
         (sort_key (\<lambda>a. - float_val (future_potential_fl a))
           (filter (\<lambda>a. 0 < float_val (current_price_fl a) \<and> float_val (current_price_fl a) \<le> B)
              (List.map_filter analyze_stock (map snd (company_map self))))))"
proof -
  let ?assets = "List.map_filter analyze_stock (map snd (company_map self))"
  let ?pick = "\<lambda>a. 0 < py_int (float_val (fl (B / float_val (current_price_fl a))))"
  let ?sel = "\<lambda>a. 0 < float_val (current_price_fl a) \<and> float_val (current_price_fl a) \<le> B"
  let ?g = "budget_keys_of (Finite B)"
  let ?h = "\<lambda>a. - float_val (future_potential_fl a)"
  let ?all = "map ?g (filter ?pick ?assets)"
  have c: "collect_stocks_fl analyze_stock (Finite B) (map snd (company_map self)) [] = Inr ?all"
    using collect_stocks_fl_eq [of analyze_stock "map snd (company_map self)" B "[]", OF wf]
    by simp
  have "\<And>x. x \<in> set ?all \<Longrightarrow> \<exists>f. future_potential_fl x = Finite f"
    using wf by fastforce
  then have "sorted_reverse future_potential_key_fl ?all = Inr (sort_key ?h ?all)"
    by (rule sorted_reverse_potential_fl)
  also have "sort_key ?h ?all = map ?g (sort_key ?h (filter ?pick ?assets))"
    by (simp add: sort_key_map)
  finally have s: "sorted_reverse future_potential_key_fl ?all
                   = Inr (map ?g (sort_key ?h (filter ?pick ?assets)))" .
  have "\<And>s. s \<in> set ?all \<Longrightarrow>
          \<exists>p f Q. current_price_fl s = Finite p \<and> 0 < p \<and> future_potential_fl s = Finite f
                \<and> fl (B / p) = Finite Q"
  proof -
    fix s assume "s \<in> set ?all"
    then obtain a where a: "a \<in> set ?assets" "?pick a" "s = ?g a" by auto
    from wf [OF a(1)] obtain p f Q where
      w: "current_price_fl a = Finite p" "p \<noteq> 0" "future_potential_fl a = Finite f"
         "fl (B / p) = Finite Q" by blast
    from a(2) w have "0 < py_int Q" by simp
    from selected_fl(1) [OF w(4) B(1) w(2) this] w a(3)
    show "\<exists>p f Q. current_price_fl s = Finite p \<and> 0 < p \<and> future_potential_fl s = Finite f
                \<and> fl (B / p) = Finite Q" by simp
  qed
  from optimize_portfolio_fl_total [where stocks = ?all and B = B and self = self, OF this B(2)]
  obtain portfolio where o: "optimize_portfolio_fl self ?all (Finite B) = Inr portfolio" by blast
  have "filter (\<lambda>a. ?pick a \<and> float_le (current_price_fl a) (Finite B)) ?assets = filter ?sel ?assets"
  proof (rule filter_cong [OF refl])
    fix a assume "a \<in> set ?assets"
    from wf [OF this] obtain p f Q where
      w: "current_price_fl a = Finite p" "p \<noteq> 0" "future_potential_fl a = Finite f"
         "fl (B / p) = Finite Q" by blast
    show "(?pick a \<and> float_le (current_price_fl a) (Finite B)) = ?sel a"
      using selected_fl [OF w(4) B(1) w(2)] by (auto simp: w float_le_def)
  qed
  then have f: "filter (\<lambda>stock. float_le (current_price_fl stock) (Finite B))
             (map ?g (sort_key ?h (filter ?pick ?assets)))
           = map ?g (sort_key ?h (filter ?sel ?assets))"
    by (simp add: filter_map comp_def filter_sort)
  show ?thesis
    by (simp add: affordable_stocks_fl_def get_budget_optimized_stocks_fl_def c s o f)
qed

lemma potential_order_descending_fl:
  assumes "\<And>x. x \<in> set xs \<Longrightarrow> \<exists>f. future_potential_fl x = Finite f"
  shows "sorted_wrt (\<lambda>x y. float_ge (future_potential_fl x) (future_potential_fl y))
           (sort_key (\<lambda>a. - float_val (future_potential_fl a)) xs)"
proof -
  let ?h = "\<lambda>a. - float_val (future_potential_fl a)"
  have "sorted (map ?h (sort_key ?h xs))" by (rule sorted_sort_key)
  then have "sorted_wrt (\<lambda>x y. ?h x \<le> ?h y) (sort_key ?h xs)" by (simp add: sorted_wrt_map)
  moreover have "float_ge (future_potential_fl x) (future_potential_fl y)"
    if "x \<in> set (sort_key ?h xs)" "y \<in> set (sort_key ?h xs)" "?h x \<le> ?h y" for x y
  proof -
    from that(1,2) assms obtain f g where
      "future_potential_fl x = Finite f" "future_potential_fl y = Finite g" by fastforce
    with that(3) show ?thesis by simp
  qed
  ultimately show ?thesis by (rule sorted_wrt_mono_rel [rotated])
qed

lemma potential_order_stable_fl:
  assumes "\<And>x. x \<in> set xs \<Longrightarrow> \<exists>f. future_potential_fl x = Finite f"
  shows "filter (\<lambda>a. future_potential_fl a = k)
           (sort_key (\<lambda>a. - float_val (future_potential_fl a)) xs)
         = filter (\<lambda>a. future_potential_fl a = k) xs"
proof -
  let ?h = "\<lambda>a. - float_val (future_potential_fl a)"
  have eq: "(future_potential_fl x = k) = (?h x = - float_val k \<and> (\<exists>v. k = Finite v))"
    if "x \<in> set xs" for x
    using assms [OF that] by (cases k) auto
  have "filter (\<lambda>a. future_potential_fl a = k) (sort_key ?h xs)
        = filter (\<lambda>a. ?h a = - float_val k \<and> (\<exists>v. k = Finite v)) (sort_key ?h xs)"
    by (rule filter_cong [OF refl]) (simp add: eq)
  also have "\<dots> = filter (\<lambda>a. \<exists>v. k = Finite v) (filter (\<lambda>a. ?h a = - float_val k) (sort_key ?h xs))"
    by (simp add: conj_commute)
  also have "filter (\<lambda>a. ?h a = - float_val k) (sort_key ?h xs)
             = filter (\<lambda>a. ?h a = - float_val k) xs"
    by (rule sort_key_stable)
  also have "filter (\<lambda>a. \<exists>v. k = Finite v) (filter (\<lambda>a. ?h a = - float_val k) xs)
        = filter (\<lambda>a. ?h a = - float_val k \<and> (\<exists>v. k = Finite v)) xs"
    by (simp add: conj_commute)
  also have "\<dots> = filter (\<lambda>a. future_potential_fl a = k) xs"
    by (rule filter_cong [OF refl]) (simp add: eq)
  finally show ?thesis .
qed

lemma quotient_not_PInf:
  assumes "0 < p" "0 < B" "float_div (Finite B) (Finite p) \<noteq> Inr PInf"
  shows "\<exists>Q. fl (B / p) = Finite Q"
proof -
  have "fl (B / p) \<noteq> PInf" using assms(1,3) by simp
  moreover have "0 \<le> B / p" using assms(1,2) by simp
  ultimately show ?thesis using fl_nonneg [of "B / p"] by blast
qed

text \<open>
  C4, amended. Let \<open>assets\<close> be the analyses that \<^verbatim>\<open>analyze_stock\<close> gives for the company
  map, non-empty, with finite positive prices and finite potentials, and let the budget be
  a positive double such that no quotient \<open>budget / current_price\<close> overflows. Then the
  affordable single stocks are exactly the assets with \<open>current_price \<le> budget\<close>, sorted by
  \<open>future_potential\<close> descending with equal potentials in input order (each record
  carrying the three keys that the method stores in it, its symbol, price and potential
  untouched); when no asset has \<open>current_price \<le> budget\<close> the result is the empty list,
  not an error.
\<close>

theorem affordable_stocks_fl_ranking:
  assumes "assets = List.map_filter analyze_stock (map snd (company_map self))"
    and "assets \<noteq> []"
    and "\<forall>a \<in> set assets. \<exists>p f. current_price_fl a = Finite p \<and> 0 < p
           \<and> future_potential_fl a = Finite f
           \<and> float_div (Finite B) (Finite p) \<noteq> Inr PInf"
    and "0 < B" and "fl B = Finite B"
  shows "\<exists>ranked.
      affordable_stocks_fl self analyze_stock (Finite B)
        = Inr (map (budget_keys_of (Finite B)) ranked)
    \<and> map symbol_fl (map (budget_keys_of (Finite B)) ranked) = map symbol_fl ranked
    \<and> map current_price_fl (map (budget_keys_of (Finite B)) ranked) = map current_price_fl ranked
    \<and> map future_potential_fl (map (budget_keys_of (Finite B)) ranked)
        = map future_potential_fl ranked
    \<and> ranked = sort_key (\<lambda>a. - float_val (future_potential_fl a))
                 (filter (\<lambda>a. float_le (current_price_fl a) (Finite B)) assets)
    \<and> mset ranked = mset (filter (\<lambda>a. float_le (current_price_fl a) (Finite B)) assets)
    \<and> sorted_wrt (\<lambda>x y. float_ge (future_potential_fl x) (future_potential_fl y)) ranked
    \<and> (\<forall>k. filter (\<lambda>a. future_potential_fl a = k) ranked
           = filter (\<lambda>a. future_potential_fl a = k)
               (filter (\<lambda>a. float_le (current_price_fl a) (Finite B)) assets))
    \<and> ((\<forall>a \<in> set assets. \<not> float_le (current_price_fl a) (Finite B))
          \<longrightarrow> affordable_stocks_fl self analyze_stock (Finite B) = Inr [])"
proof -
  let ?aff = "filter (\<lambda>a. float_le (current_price_fl a) (Finite B)) assets"
  let ?h = "\<lambda>a. - float_val (future_potential_fl a)"
  let ?ranked = "sort_key ?h ?aff"
  have wf: "\<exists>p f Q. current_price_fl a = Finite p \<and> p \<noteq> 0 \<and> future_potential_fl a = Finite f
                  \<and> fl (B / p) = Finite Q"
    if "a \<in> set (List.map_filter analyze_stock (map snd (company_map self)))" for a
  proof -
    from that assms(1,3) obtain p f where
      a: "current_price_fl a = Finite p" "0 < p" "future_potential_fl a = Finite f"
         "float_div (Finite B) (Finite p) \<noteq> Inr PInf" by blast
    from quotient_not_PInf [OF a(2) assms(4) a(4)] a show ?thesis by auto
  qed
  have "filter (\<lambda>a. 0 < float_val (current_price_fl a) \<and> float_val (current_price_fl a) \<le> B) assets
        = ?aff"
    using assms(3) by (intro filter_cong) (auto simp: float_le_def)
  with affordable_stocks_fl_eq [OF wf assms(4,5)] assms(1)
  have 1: "affordable_stocks_fl self analyze_stock (Finite B)
           = Inr (map (budget_keys_of (Finite B)) ?ranked)"
    by simp
  have 2: "(\<forall>a \<in> set assets. \<not> float_le (current_price_fl a) (Finite B))
          \<longrightarrow> affordable_stocks_fl self analyze_stock (Finite B) = Inr []"
  proof
    assume "\<forall>a \<in> set assets. \<not> float_le (current_price_fl a) (Finite B)"
    then have "?aff = []" by (simp add: filter_empty_conv)
    with 1 show "affordable_stocks_fl self analyze_stock (Finite B) = Inr []" by simp
  qed
  have fin: "\<And>x. x \<in> set ?aff \<Longrightarrow> \<exists>f. future_potential_fl x = Finite f"
    using assms(3) by auto
  have 3: "mset ?ranked = mset ?aff" by simp
  have 4: "sorted_wrt (\<lambda>x y. float_ge (future_potential_fl x) (future_potential_fl y)) ?ranked"
    using fin by (rule potential_order_descending_fl)
  have 5: "\<forall>k. filter (\<lambda>a. future_potential_fl a = k) ?ranked
           = filter (\<lambda>a. future_potential_fl a = k) ?aff"
    using potential_order_stable_fl [OF fin] by blast
  have 6: "map symbol_fl (map (budget_keys_of (Finite B)) ?ranked) = map symbol_fl ?ranked"
    "map current_price_fl (map (budget_keys_of (Finite B)) ?ranked) = map current_price_fl ?ranked"
    "map future_potential_fl (map (budget_keys_of (Finite B)) ?ranked)
        = map future_potential_fl ?ranked"
    by (simp_all add: comp_def)
  from 1 2 3 4 5 6 show ?thesis by (intro exI [of _ ?ranked] conjI) (rule refl | assumption)+
qed

lemma fl_60: "fl 60 = Finite 60"
  using fl_of_int [of 60] by simp

lemma fl_quotient_small:
  assumes "0 \<le> x" "x \<le> 2"
  shows "\<exists>Q. fl x = Finite Q"
proof -
  have "fl 2 = Finite 2" using fl_of_int [of 2] by simp
  then have "fl 2 \<noteq> PInf" by simp
  with assms(2) have "fl x \<noteq> PInf" by (rule fl_not_PInf_mono)
  with fl_nonneg [OF assms(1)] show ?thesis by blast
qed

theorem affordable_stocks_fl_ranking_witness:
  "[asset_A_fl, asset_B_fl] = List.map_filter example_analyze_fl (map snd (company_map example_self))
   \<and> [asset_A_fl, asset_B_fl] \<noteq> []
   \<and> current_price_fl asset_A_fl = Finite 100 \<and> (0::real) < 100
   \<and> future_potential_fl asset_A_fl = Finite 20
   \<and> float_div (Finite 60) (Finite 100) \<noteq> Inr PInf
   \<and> current_price_fl asset_B_fl = Finite 50 \<and> (0::real) < 50
   \<and> future_potential_fl asset_B_fl = Finite 15
   \<and> float_div (Finite 60) (Finite 50) \<noteq> Inr PInf
   \<and> (0::real) < 60 \<and> fl 60 = Finite 60
   \<and> affordable_stocks_fl example_self example_analyze_fl (Finite 60)
       = Inr [budget_keys_of (Finite 60) asset_B_fl]
   \<and> symbol_fl (budget_keys_of (Finite 60) asset_B_fl) = ''B''"
proof -
  have a: "[asset_A_fl, asset_B_fl]
           = List.map_filter example_analyze_fl (map snd (company_map example_self))"
    by (simp add: example_self_def example_analyze_fl_def List.map_filter_simps)
  have n: "[asset_A_fl, asset_B_fl] \<noteq> []" by simp
  have qa: "float_div (Finite 60) (Finite 100) \<noteq> Inr PInf"
    using fl_quotient_small [of "60 / 100"] by auto
  have qb: "float_div (Finite 60) (Finite 50) \<noteq> Inr PInf"
    using fl_quotient_small [of "60 / 50"] by auto
  have pa: "current_price_fl asset_A_fl = Finite 100" "future_potential_fl asset_A_fl = Finite 20"
    and pb: "current_price_fl asset_B_fl = Finite 50" "future_potential_fl asset_B_fl = Finite 15"
    by (simp_all add: asset_A_fl_def asset_B_fl_def)
  have h: "\<forall>a \<in> set [asset_A_fl, asset_B_fl]. \<exists>p f. current_price_fl a = Finite p \<and> 0 < p
           \<and> future_potential_fl a = Finite f
           \<and> float_div (Finite 60) (Finite p) \<noteq> Inr PInf"
    using qa qb by (simp add: pa pb del: float_div.simps)
  have b: "(0::real) < 60" by simp
  have f: "filter (\<lambda>a. float_le (current_price_fl a) (Finite 60)) [asset_A_fl, asset_B_fl]
           = [asset_B_fl]"
    by (simp add: pa pb float_le_def)
  from affordable_stocks_fl_ranking [OF a n h b fl_60]
  obtain ranked where
    r1: "affordable_stocks_fl example_self example_analyze_fl (Finite 60)
         = Inr (map (budget_keys_of (Finite 60)) ranked)"
    and r2: "ranked = sort_key (\<lambda>a. - float_val (future_potential_fl a))
                      (filter (\<lambda>a. float_le (current_price_fl a) (Finite 60))
                         [asset_A_fl, asset_B_fl])"
    by blast
  have "ranked = [asset_B_fl]" unfolding r2 f by simp
  with r1 have r: "affordable_stocks_fl example_self example_analyze_fl (Finite 60)
       = Inr [budget_keys_of (Finite 60) asset_B_fl]"
    by simp
  have s: "symbol_fl (budget_keys_of (Finite 60) asset_B_fl) = ''B''"
    by (simp add: asset_B_fl_def)
  have z: "(0::real) < 100" "(0::real) < 50" by simp_all
  from a n pa(1) z(1) pa(2) qa pb(1) z(2) pb(2) qb b fl_60 r s show ?thesis by (intro conjI)
qed

text \<open>
  C4 as the specification states it fails where the quotient \<open>budget / current_price\<close>
  overflows: for the price 0.25 and the budget \<open>2 ^ 1023\<close>, both positive doubles, the
  quotient is \<open>inf\<close> and \<^verbatim>\<open>int(budget / analysis['current_price'])\<close> raises
  \<^verbatim>\<open>OverflowError\<close>, although the asset is affordable.
\<close>

theorem affordable_stocks_fl_overflow:
  "List.map_filter overflow_analyze (map snd (company_map overflow_self)) = [asset_Q_fl]
   \<and> current_price_fl asset_Q_fl = Finite (1 / 4) \<and> (0::real) < 1 / 4
   \<and> fl (1 / 4) = Finite (1 / 4)
   \<and> (0::real) < 2 ^ 1023 \<and> fl (2 ^ 1023) = Finite (2 ^ 1023)
   \<and> float_le (current_price_fl asset_Q_fl) (Finite (2 ^ 1023))
   \<and> affordable_stocks_fl overflow_self overflow_analyze (Finite (2 ^ 1023)) = Inl OverflowError"
proof -
  have a: "List.map_filter overflow_analyze (map snd (company_map overflow_self)) = [asset_Q_fl]"
    by (simp add: overflow_self_def overflow_analyze_def List.map_filter_simps)
  have p: "current_price_fl asset_Q_fl = Finite (1 / 4)" by (simp add: asset_Q_fl_def)
  have "fl (of_int 1 * 2 powi (- 2)) = Finite (of_int 1 * 2 powi (- 2))"
    by (rule fl_rep) simp_all
  then have q: "fl (1 / 4) = Finite (1 / 4)" by (simp add: power_int_minus)
  have "fl (of_int (2 ^ 52) * 2 powi 971) = Finite (of_int (2 ^ 52) * 2 powi 971)"
    by (rule fl_rep) simp_all
  moreover have "(of_int (2 ^ 52) * 2 powi 971 :: real) = 2 ^ 1023"
  proof -
    have "(of_int (2 ^ 52) :: real) = 2 powi 52" by simp
    then have "(of_int (2 ^ 52) * 2 powi 971 :: real) = 2 powi (52 + 971)"
      by (simp only: pw_add)
    then show ?thesis by simp
  qed
  ultimately have b: "fl (2 ^ 1023) = Finite (2 ^ 1023)" by (simp only:)
  define budget :: real where "budget = 2 ^ 1023"
  have "(2::real) ^ 1024 = 2 ^ 1023 * 2 ^ 1" by (simp only: power_add [symmetric]) simp
  then have "(2::real) ^ 1024 \<le> budget * 4" by (simp add: budget_def)
  then have o: "fl (budget * 4) = PInf" by (rule fl_overflow)
  have c: "collect_stocks_fl overflow_analyze (Finite budget) [''Q''] [] = Inl OverflowError"
    by (simp add: overflow_analyze_def p o)
  have r: "affordable_stocks_fl overflow_self overflow_analyze (Finite budget)
           = Inl OverflowError"
    by (simp add: affordable_stocks_fl_def get_budget_optimized_stocks_fl_def overflow_self_def c
        del: collect_stocks_fl.simps)
  have "(1::real) \<le> 2 ^ 1023" by (rule one_le_power) simp
  then have b1: "1 \<le> budget" by (simp only: budget_def)
  then have l: "float_le (current_price_fl asset_Q_fl) (Finite budget)"
    by (simp add: p float_le_def)
  have z: "(0::real) < 1 / 4" "0 < budget" using b1 by simp_all
  note r = r [unfolded budget_def] and l = l [unfolded budget_def] and z = z [unfolded budget_def]
  from a p z(1) q z(2) b l r show ?thesis by (intro conjI)
qed

subsection \<open>Records with a negative price\<close>




end
